theory Spec2Isabelle
  imports Main "HOL-Library.Sublist"
begin

section \<open>Text primitives of the host language\<close>

text \<open>
  Strings are lists of code units.  The model covers the code units below 256, so a
  \<^typ>\<open>string\<close> is a JavaScript string whose characters are all Latin-1.  The functions
  below are the string methods that \<^verbatim>\<open>services/userHistory.ts\<close> and \<^verbatim>\<open>server.ts\<close> call.
\<close>

definition nl :: char where
  "nl = CHR 0x0A"

text \<open>\<^verbatim>\<open>s.split('\n')\<close>: one more line than there are line feeds; the empty string gives
  one empty line.\<close>

fun split_nl :: "string \<Rightarrow> string list" where
  "split_nl [] = [[]]"
| "split_nl (c # cs) =
     (if c = CHR 0x0A then [] # split_nl cs
      else (case split_nl cs of
              [] \<Rightarrow> [[c]]
            | l # ls \<Rightarrow> (c # l) # ls))"

text \<open>\<^verbatim>\<open>xs.join(sep)\<close>.\<close>

fun join :: "string \<Rightarrow> string list \<Rightarrow> string" where
  "join sep [] = []"
| "join sep [x] = x"
| "join sep (x # y # ys) = x @ sep @ join sep (y # ys)"

text \<open>\<^verbatim>\<open>s.includes(pat)\<close>: \<open>pat\<close> occurs in \<open>s\<close> as a contiguous run.\<close>

fun includes_str :: "string \<Rightarrow> string \<Rightarrow> bool" where
  "includes_str [] pat = (pat = [])"
| "includes_str (c # cs) pat = (prefix pat (c # cs) \<or> includes_str cs pat)"

text \<open>The white space and line terminators that \<^verbatim>\<open>trim()\<close> removes, among the code
  units below 256: TAB, LF, VT, FF, CR, SPACE and NBSP.\<close>

definition is_ws :: "char \<Rightarrow> bool" where
  "is_ws c = (c \<in> {CHR 0x09, CHR 0x0A, CHR 0x0B, CHR 0x0C, CHR 0x0D, CHR 0x20, CHR 0xA0})"

definition trim :: "string \<Rightarrow> string" where
  "trim s = rev (dropWhile is_ws (rev (dropWhile is_ws s)))"

text \<open>\<^verbatim>\<open>String(n)\<close> for a non-negative integer: its decimal digits.\<close>

definition digit_char :: "nat \<Rightarrow> char" where
  "digit_char d = ''0123456789'' ! d"

function num_to_string :: "nat \<Rightarrow> string" where
  "num_to_string n = (if n < 10 then [digit_char n] else num_to_string (n div 10) @ [digit_char (n mod 10)])"
  by pat_completeness auto
termination
  by (relation "measure (\<lambda>n. n)") auto

declare num_to_string.simps [simp del]

section \<open>The session log and its provenance filter\<close>

subsection \<open>Markers\<close>

definition sessionStart :: string where
  "sessionStart = ''### Session''"

definition symptomsMarker :: string where
  "symptomsMarker = ''**Symptoms Reported:**''"

definition healthMarker :: string where
  "healthMarker = ''**Additional Health Context:**''"

definition diagnosisMarker :: string where
  "diagnosisMarker = ''**Diagnosis & Recommendations:**''"

definition separator :: string where
  "separator = ''---''"

text \<open>\<^verbatim>\<open>line.match(/^### Session/)\<close>: the pattern is anchored at the start of the line.\<close>

definition matchesSessionStart :: "string \<Rightarrow> bool" where
  "matchesSessionStart line = prefix sessionStart line"

subsection \<open>The line scan of extractUserProvidedHistory\<close>

record scan_state =
  userProvidedSections :: "string list"
  currentSession :: "string list"
  inSymptomsSection :: bool
  inHealthContextSection :: bool
  inDiagnosisSection :: bool

definition scan_init :: scan_state where
  "scan_init = \<lparr> userProvidedSections = [], currentSession = [],
                 inSymptomsSection = False, inHealthContextSection = False,
                 inDiagnosisSection = False \<rparr>"

text \<open>One iteration of the \<^verbatim>\<open>for\<close> loop, in the order of the source's tests: each branch
  ends in \<^verbatim>\<open>continue\<close>, so the first test that holds decides.\<close>

definition scan_line :: "scan_state \<Rightarrow> string \<Rightarrow> scan_state" where
  "scan_line st line =
     (if matchesSessionStart line then
        st \<lparr> userProvidedSections :=
               (if length (currentSession st) > 0
                then userProvidedSections st @ [join [nl] (currentSession st)]
                else userProvidedSections st),
             currentSession := [line],
             inSymptomsSection := False, inHealthContextSection := False,
             inDiagnosisSection := False \<rparr>
      else if includes_str line symptomsMarker then
        st \<lparr> inSymptomsSection := True, inHealthContextSection := False,
             inDiagnosisSection := False,
             currentSession := currentSession st @ [line] \<rparr>
      else if includes_str line healthMarker then
        st \<lparr> inSymptomsSection := False, inHealthContextSection := True,
             inDiagnosisSection := False,
             currentSession := currentSession st @ [line] \<rparr>
      else if includes_str line diagnosisMarker then
        st \<lparr> inSymptomsSection := False, inHealthContextSection := False,
             inDiagnosisSection := True \<rparr>
      else if trim line = separator then
        st \<lparr> inSymptomsSection := False, inHealthContextSection := False,
             inDiagnosisSection := False \<rparr>
      else if inSymptomsSection st \<or> inHealthContextSection st then
        st \<lparr> currentSession := currentSession st @ [line] \<rparr>
      else st)"

definition scan_lines :: "scan_state \<Rightarrow> string list \<Rightarrow> scan_state" where
  "scan_lines st ls = foldl scan_line st ls"

text \<open>The test after the loop: the last accumulator is pushed unless it is empty or the
  scan ended inside a diagnosis section.\<close>

definition scan_finish :: "scan_state \<Rightarrow> string list" where
  "scan_finish st =
     (if length (currentSession st) > 0 \<and> \<not> inDiagnosisSection st
      then userProvidedSections st @ [join [nl] (currentSession st)]
      else userProvidedSections st)"

text \<open>The blocks that the scan of a whole text leaves in \<^verbatim>\<open>userProvidedSections\<close>.\<close>

definition filterSections :: "string \<Rightarrow> string list" where
  "filterSections markdownContent = scan_finish (scan_lines scan_init (split_nl markdownContent))"

subsection \<open>The header pattern\<close>

text \<open>
  \<^verbatim>\<open>/^# Medical History[^\n]*\n\n\*\*Created:\*\*[^\n]*/\<close> without flags: the literal at the
  start of the text, the rest of that line, an empty line, the literal \<^verbatim>\<open>**Created:**\<close> and
  the rest of that line.  A run \<^verbatim>\<open>[^\n]*\<close> followed by a line feed or by the end of the
  match can only match the whole rest of the line, so the match is unique.
\<close>

definition headerTitle :: string where
  "headerTitle = ''# Medical History''"

definition headerCreated :: string where
  "headerCreated = ''**Created:**''"

definition not_nl :: "char \<Rightarrow> bool" where
  "not_nl c = (c \<noteq> CHR 0x0A)"

definition headerMatch :: "string \<Rightarrow> string option" where
  "headerMatch s =
     (if prefix headerTitle s then
        (let r1 = drop (length headerTitle) s;
             a = takeWhile not_nl r1;
             r2 = dropWhile not_nl r1
         in if prefix ([nl, nl] @ headerCreated) r2 then
              (let r3 = drop (length ([nl, nl] @ headerCreated)) r2;
                   b = takeWhile not_nl r3
               in Some (headerTitle @ a @ [nl, nl] @ headerCreated @ b))
            else None)
      else None)"

subsection \<open>extractUserProvidedHistory\<close>

definition sectionLabel :: string where
  "sectionLabel = [nl, nl] @ ''---'' @ [nl, nl] @ ''## Session History'' @ [nl, nl]"

definition sectionSeparator :: string where
  "sectionSeparator = [nl, nl] @ ''---'' @ [nl, nl]"

definition extractUserProvidedHistory :: "string \<Rightarrow> string" where
  "extractUserProvidedHistory markdownContent =
     (let userSections = filterSections markdownContent;
          header = (case headerMatch markdownContent of Some h \<Rightarrow> h | None \<Rightarrow> [])
      in if length userSections = 0 then header @ sectionLabel
         else header @ sectionLabel @ join sectionSeparator userSections @ [nl, nl])"

subsection \<open>The texts that the store writes\<close>

text \<open>The template literals of \<^verbatim>\<open>loadUserHistory\<close> and \<^verbatim>\<open>appendToUserHistory\<close>; the time
  stamp \<^verbatim>\<open>new Date().toISOString()\<close> is an argument.\<close>

definition initialContent :: "string \<Rightarrow> string \<Rightarrow> string" where
  "initialContent userId now =
     ''# Medical History - User '' @ userId @ [nl, nl] @
     ''**Created:** '' @ now @ [nl, nl] @
     ''---'' @ [nl, nl] @
     ''## Session History'' @ [nl, nl]"

text \<open>\<^verbatim>\<open>healthHistory ? ... : ''\<close>: an absent and an empty health history are both falsy.\<close>

definition truthy :: "string option \<Rightarrow> bool" where
  "truthy v = (case v of None \<Rightarrow> False | Some s \<Rightarrow> s \<noteq> [])"

definition sessionEntry :: "string \<Rightarrow> string \<Rightarrow> string \<Rightarrow> string option \<Rightarrow> string" where
  "sessionEntry now symptoms diagnosis healthHistory =
     [nl] @ ''### Session '' @ now @ [nl, nl] @
     ''**Symptoms Reported:**'' @ [nl] @ symptoms @ [nl, nl] @
     (if truthy healthHistory
      then ''**Additional Health Context:**'' @ [nl] @ the healthHistory @ [nl]
      else []) @
     [nl, nl] @ ''**Diagnosis & Recommendations:**'' @ [nl] @ diagnosis @ [nl, nl] @
     ''---'' @ [nl, nl]"

text \<open>The interface \<^verbatim>\<open>UserSession\<close>: one recorded interaction.\<close>

record UserSession =
  userId :: string
  symptoms :: string
  diagnosis :: string
  healthHistory :: "string option"
  timestamp :: string

text \<open>What \<^verbatim>\<open>appendToUserHistory\<close> adds to the file for a session, and the file after a
  log was created and the sessions were appended one by one.\<close>

definition entryText :: "UserSession \<Rightarrow> string" where
  "entryText e = sessionEntry (timestamp e) (symptoms e) (diagnosis e) (healthHistory e)"

definition renderLog :: "string \<Rightarrow> string \<Rightarrow> UserSession list \<Rightarrow> string" where
  "renderLog uid created es = initialContent uid created @ concat (map entryText es)"

subsection \<open>Classes of lines\<close>

text \<open>The lines on which the loop reaches its last test (no marker, no separator), and the
  lines on which it takes the diagnosis branch.\<close>

definition plainLine :: "string \<Rightarrow> bool" where
  "plainLine l =
     (\<not> matchesSessionStart l \<and> \<not> includes_str l symptomsMarker \<and>
      \<not> includes_str l healthMarker \<and> \<not> includes_str l diagnosisMarker \<and>
      trim l \<noteq> separator)"

definition diagnosisLine :: "string \<Rightarrow> bool" where
  "diagnosisLine l =
     (\<not> matchesSessionStart l \<and> \<not> includes_str l symptomsMarker \<and>
      \<not> includes_str l healthMarker \<and> includes_str l diagnosisMarker)"

definition plainText :: "string \<Rightarrow> bool" where
  "plainText s = list_all plainLine (split_nl s)"

definition nlFree :: "string \<Rightarrow> bool" where
  "nlFree s = (CHR 0x0A \<notin> set s)"

text \<open>A session whose fields hold no marker line and no separator line, and whose time stamp
  is a single line.\<close>

definition wellFormedSession :: "UserSession \<Rightarrow> bool" where
  "wellFormedSession e =
     (nlFree (timestamp e) \<and> plainText (symptoms e) \<and> plainText (diagnosis e) \<and>
      (if truthy (healthHistory e) then plainText (the (healthHistory e)) else True))"

definition titleLine :: "string \<Rightarrow> string" where
  "titleLine uid = ''# Medical History - User '' @ uid"

definition createdLine :: "string \<Rightarrow> string" where
  "createdLine created = ''**Created:** '' @ created"

definition wellFormedHeader :: "string \<Rightarrow> string \<Rightarrow> bool" where
  "wellFormedHeader uid created =
     (nlFree uid \<and> nlFree created \<and> plainLine (titleLine uid) \<and> plainLine (createdLine created))"

text \<open>The filtered view as the specification describes it: the header, the section label
  and, for each session, the session line and the user's own fields.  The diagnosis of a
  session does not occur in it.\<close>

definition userBlock :: "UserSession \<Rightarrow> string" where
  "userBlock e =
     ''### Session '' @ timestamp e @ [nl] @
     ''**Symptoms Reported:**'' @ [nl] @ symptoms e @ [nl, nl] @
     (if truthy (healthHistory e)
      then ''**Additional Health Context:**'' @ [nl] @ the (healthHistory e) @ [nl]
      else []) @
     [nl]"

definition viewOf :: "string \<Rightarrow> string \<Rightarrow> string list \<Rightarrow> string" where
  "viewOf uid created blocks =
     titleLine uid @ [nl, nl] @ createdLine created @ sectionLabel @
     (if blocks = [] then [] else join sectionSeparator blocks @ [nl, nl])"

definition filteredView :: "string \<Rightarrow> string \<Rightarrow> UserSession list \<Rightarrow> string" where
  "filteredView uid created es = viewOf uid created (map userBlock es)"

text \<open>The fields of a session that come from the user.\<close>

definition userFields :: "UserSession \<Rightarrow> string \<times> string \<times> string option" where
  "userFields e = (timestamp e, symptoms e, healthHistory e)"

text \<open>What a second pass leaves of the blocks of a view: every block but the last has one
  more line feed, the last has two more.\<close>

definition paddedBlocks :: "string list \<Rightarrow> string list" where
  "paddedBlocks bs =
     (if bs = [] then []
      else map (\<lambda>b. b @ [nl]) (butlast bs) @ [last bs @ [nl, nl]])"

section \<open>The session log store\<close>

text \<open>
  The functions of \<^verbatim>\<open>services/userHistory.ts\<close> call \<^verbatim>\<open>path.join\<close>, \<^verbatim>\<open>fs.mkdir\<close>,
  \<^verbatim>\<open>fs.readFile\<close>, \<^verbatim>\<open>fs.writeFile\<close> and \<^verbatim>\<open>fs.appendFile\<close>.  The storage is a state: the
  files with their access rights, keyed by their normalised absolute path, the directories
  that exist, whether the disk is full.  A rejected promise is the value \<open>Inl\<close> of an
  error.  The console and the prompts sent to the model are part of the state too.
\<close>

subsection \<open>Paths\<close>

text \<open>\<^verbatim>\<open>path.join\<close> on a POSIX system: the arguments that are not empty are joined with
  \<^verbatim>\<open>/\<close> and the result is normalised.  Normalising drops the empty segments and the
  segments \<^verbatim>\<open>.\<close>, and lets a segment \<^verbatim>\<open>..\<close> remove the segment before it; above the start
  of a relative path the segment \<^verbatim>\<open>..\<close> is kept, above the root it is dropped.\<close>

fun splitSlash :: "string \<Rightarrow> string list" where
  "splitSlash [] = [[]]"
| "splitSlash (c # cs) =
     (if c = CHR ''/'' then [] # splitSlash cs
      else (case splitSlash cs of
              [] \<Rightarrow> [[c]]
            | l # ls \<Rightarrow> (c # l) # ls))"

fun normalizeSegments :: "bool \<Rightarrow> string list \<Rightarrow> string list \<Rightarrow> string list" where
  "normalizeSegments allowAboveRoot res [] = res"
| "normalizeSegments allowAboveRoot res (s # ss) =
     (if s = [] \<or> s = ''.'' then normalizeSegments allowAboveRoot res ss
      else if s = ''..'' then
        (if res \<noteq> [] \<and> last res \<noteq> ''..''
         then normalizeSegments allowAboveRoot (butlast res) ss
         else if allowAboveRoot then normalizeSegments allowAboveRoot (res @ [''..'']) ss
         else normalizeSegments allowAboveRoot res ss)
      else normalizeSegments allowAboveRoot (res @ [s]) ss)"

definition normalizePath :: "string \<Rightarrow> string" where
  "normalizePath p =
     (if p = [] then ''.''
      else
        (let isAbsolute = (hd p = CHR ''/'');
             trailingSeparator = (last p = CHR ''/'');
             body = join ''/'' (normalizeSegments (\<not> isAbsolute) [] (splitSlash p))
         in if body = [] then (if isAbsolute then ''/'' else if trailingSeparator then ''./'' else ''.'')
            else (if isAbsolute then ''/'' else []) @ body @
                 (if trailingSeparator then ''/'' else [])))"

definition pathJoin :: "string \<Rightarrow> string \<Rightarrow> string" where
  "pathJoin a b =
     (if a = [] then (if b = [] then ''.'' else normalizePath b)
      else if b = [] then normalizePath a
      else normalizePath (a @ ''/'' @ b))"

text \<open>\<^verbatim>\<open>__dirname\<close> is the absolute directory of the module \<^verbatim>\<open>services/userHistory\<close>; the
  value below stands for it.  \<^verbatim>\<open>USER_DATA_DIR\<close> is \<^verbatim>\<open>path.join(__dirname, '..', 'user-data')\<close>.\<close>

definition moduleDir :: string where
  "moduleDir = ''/app/src/services''"

definition USER_DATA_DIR :: string where
  "USER_DATA_DIR = pathJoin (pathJoin moduleDir ''..'') ''user-data''"

text \<open>\<^verbatim>\<open>path.join(USER_DATA_DIR, `${userId}.md`)\<close>.\<close>

definition filePath :: "string \<Rightarrow> string" where
  "filePath uid = pathJoin USER_DATA_DIR (uid @ ''.md'')"

subsection \<open>The file system\<close>

datatype io_error = ENOENT | EACCES | ENOSPC | ENAMETOOLONG | ERR_INVALID_ARG_VALUE

record file_node =
  content :: string
  readable :: bool
  writable :: bool

text \<open>\<open>dirExists\<close> says whether \<^verbatim>\<open>USER_DATA_DIR\<close> exists, \<open>otherDirs\<close> which other
  directories can hold entries.  \<open>files\<close> gives what is at a path; a directory that sits
  at the path of a log is a node that can be neither read nor written as a file.\<close>

record world =
  dirExists :: bool
  dirCreatable :: bool
  diskFull :: bool
  otherDirs :: "string set"
  files :: "string \<rightharpoonup> file_node"
  console :: "string list"
  modelCalls :: "(string \<times> string) list"

text \<open>The directory that holds the file of a normalised absolute path.\<close>

definition parentDir :: "string \<Rightarrow> string" where
  "parentDir p =
     (let d = join ''/'' (butlast (splitSlash p)) in if d = [] then ''/'' else d)"

definition dirPresent :: "world \<Rightarrow> string \<Rightarrow> bool" where
  "dirPresent w d = (if d = USER_DATA_DIR then dirExists w else d \<in> otherDirs w)"

text \<open>The length of a string in UTF-8: a code unit below 128 is one byte, one from 128 to
  255 is two.  A file name holds at most 255 bytes and a path fewer than 4096.\<close>

definition utf8Length :: "string \<Rightarrow> nat" where
  "utf8Length s = sum_list (map (\<lambda>c. if of_char c < (128 :: nat) then 1 else 2) s)"

definition namesFit :: "string \<Rightarrow> bool" where
  "namesFit p = (list_all (\<lambda>s. utf8Length s \<le> 255) (splitSlash p) \<and> utf8Length p < 4096)"

text \<open>What stops an access to a path before the file is looked at: a null byte in the
  path (refused before the system is called), a name that is too long, a directory that
  is missing.\<close>

definition pathError :: "world \<Rightarrow> string \<Rightarrow> io_error option" where
  "pathError w p =
     (if CHR 0x00 \<in> set p then Some ERR_INVALID_ARG_VALUE
      else if \<not> namesFit p then Some ENAMETOOLONG
      else if \<not> dirPresent w (parentDir p) then Some ENOENT
      else None)"

definition mkdir :: "world \<Rightarrow> io_error + world" where
  "mkdir w =
     (if dirExists w then Inr w
      else if dirCreatable w then Inr (w \<lparr> dirExists := True \<rparr>)
      else Inl EACCES)"

definition readFile :: "world \<Rightarrow> string \<Rightarrow> io_error + string" where
  "readFile w p =
     (case pathError w p of
        Some e \<Rightarrow> Inl e
      | None \<Rightarrow>
          (case files w p of
             None \<Rightarrow> Inl ENOENT
           | Some f \<Rightarrow> if readable f then Inr (content f) else Inl EACCES))"

definition writeFile :: "world \<Rightarrow> string \<Rightarrow> string \<Rightarrow> io_error + world" where
  "writeFile w p text =
     (case pathError w p of
        Some e \<Rightarrow> Inl e
      | None \<Rightarrow>
          if diskFull w then Inl ENOSPC
          else (case files w p of
                  None \<Rightarrow>
                    Inr (w \<lparr> files := (files w)(p \<mapsto>
                           \<lparr> content = text, readable = True, writable = True \<rparr>) \<rparr>)
                | Some f \<Rightarrow>
                    if writable f
                    then Inr (w \<lparr> files := (files w)(p \<mapsto> f \<lparr> content := text \<rparr>) \<rparr>)
                    else Inl EACCES))"

definition appendFile :: "world \<Rightarrow> string \<Rightarrow> string \<Rightarrow> io_error + world" where
  "appendFile w p text =
     (case pathError w p of
        Some e \<Rightarrow> Inl e
      | None \<Rightarrow>
          if diskFull w then Inl ENOSPC
          else (case files w p of
                  None \<Rightarrow>
                    Inr (w \<lparr> files := (files w)(p \<mapsto>
                           \<lparr> content = text, readable = True, writable = True \<rparr>) \<rparr>)
                | Some f \<Rightarrow>
                    if writable f
                    then Inr (w \<lparr> files := (files w)(p \<mapsto> f \<lparr> content := content f @ text \<rparr>) \<rparr>)
                    else Inl EACCES))"

definition io_error_name :: "io_error \<Rightarrow> string" where
  "io_error_name e =
     (case e of ENOENT \<Rightarrow> ''ENOENT'' | EACCES \<Rightarrow> ''EACCES'' | ENOSPC \<Rightarrow> ''ENOSPC''
      | ENAMETOOLONG \<Rightarrow> ''ENAMETOOLONG'' | ERR_INVALID_ARG_VALUE \<Rightarrow> ''ERR_INVALID_ARG_VALUE'')"

subsection \<open>The operations of the store\<close>

text \<open>\<^verbatim>\<open>initializeUserDataDir\<close>: the error of \<^verbatim>\<open>mkdir\<close> is caught and written to the console.\<close>

definition initializeUserDataDir :: "world \<Rightarrow> world" where
  "initializeUserDataDir w =
     (case mkdir w of
        Inr w' \<Rightarrow> w' \<lparr> console := console w' @ [''User data directory initialized''] \<rparr>
      | Inl e \<Rightarrow>
          w \<lparr> console := console w @
                 [''Failed to create user data directory: '' @ io_error_name e] \<rparr>)"

text \<open>\<^verbatim>\<open>loadUserHistory\<close>: the \<^verbatim>\<open>catch\<close> clause takes every error of \<^verbatim>\<open>readFile\<close>; an
  error of \<^verbatim>\<open>writeFile\<close> inside it rejects the promise.\<close>

definition loadUserHistory :: "string \<Rightarrow> string \<Rightarrow> world \<Rightarrow> (io_error + string) \<times> world" where
  "loadUserHistory uid now w =
     (case readFile w (filePath uid) of
        Inr text \<Rightarrow> (Inr text, w)
      | Inl error \<Rightarrow>
          (case writeFile w (filePath uid) (initialContent uid now) of
             Inr w' \<Rightarrow> (Inr (initialContent uid now), w')
           | Inl e \<Rightarrow> (Inl e, w)))"

definition appendToUserHistory ::
  "string \<Rightarrow> string \<Rightarrow> string \<Rightarrow> string option \<Rightarrow> string \<Rightarrow> world \<Rightarrow> (io_error + unit) \<times> world" where
  "appendToUserHistory uid syms diag hh now w =
     (case appendFile w (filePath uid) (sessionEntry now syms diag hh) of
        Inr w' \<Rightarrow> (Inr (), w')
      | Inl e \<Rightarrow> (Inl e, w))"

text \<open>\<^verbatim>\<open>ensureUserId\<close>: \<^verbatim>\<open>providedUserId || randomUUID()\<close>; the second argument is the
  identifier that \<^verbatim>\<open>randomUUID\<close> returns.\<close>

definition ensureUserId :: "string option \<Rightarrow> string \<Rightarrow> string" where
  "ensureUserId providedUserId uuid = (if truthy providedUserId then the providedUserId else uuid)"

section \<open>The interaction handlers of the server\<close>

record request =
  req_symptoms :: "string option"
  req_healthHistory :: "string option"
  req_userId :: "string option"

record response =
  statusCode :: nat
  headers :: "(string \<times> string) list"
  jsonBody :: "(string \<times> string) list option"
  written :: string
  ended :: bool

definition res0 :: response where
  "res0 = \<lparr> statusCode = 200, headers = [], jsonBody = None, written = [], ended = False \<rparr>"

text \<open>A chunk of the model stream: \<^verbatim>\<open>chunk.choices[0]?.delta?.content\<close> and \<^verbatim>\<open>chunk.usage\<close>.
  The stream ends normally or throws; \<^verbatim>\<open>openRouter.chat.send\<close> itself may throw.\<close>

record chunk =
  deltaContent :: "string option"
  usage :: "string option"

datatype stream_end = StreamDone | StreamThrows string

text \<open>What \<^verbatim>\<open>crypto.randomUUID()\<close> returns: 32 lower-case hexadecimal digits in groups of 8,
  4, 4, 4 and 12, with \<^verbatim>\<open>-\<close> between the groups.\<close>

definition hexDigits :: string where
  "hexDigits = ''0123456789abcdef''"

definition isUUID :: "string \<Rightarrow> bool" where
  "isUUID s =
     (map (\<lambda>c. if c \<in> set hexDigits then CHR ''h''
                else if c = CHR ''-'' then CHR ''-'' else CHR ''?'') s
      = ''hhhhhhhh-hhhh-hhhh-hhhh-hhhhhhhhhhhh'')"

typedef uuid = "{s. isUUID s}"
  by (rule exI [of _ "''00000000-0000-4000-8000-000000000000''"])
     (simp add: isUUID_def hexDigits_def)

text \<open>What the handler takes from its environment: the identifier that \<^verbatim>\<open>randomUUID\<close>
  generates, the times of the two \<^verbatim>\<open>new Date()\<close> calls and the reply of the model.\<close>

record env =
  generated :: uuid
  loadTime :: string
  appendTime :: string
  modelReply :: "string + (chunk list \<times> stream_end)"

definition randomUUID :: "env \<Rightarrow> string" where
  "randomUUID ev = Rep_uuid (generated ev)"

definition systemPrompt :: "string \<Rightarrow> string" where
  "systemPrompt userProvidedHistory =
     ''You are a healthcare assistant. You have access to symptoms and health information that the patient has previously reported.'' @ [nl, nl] @
     ''IMPORTANT: The information below contains ONLY what the patient has explicitly reported in previous sessions. Do NOT assume or infer medical conditions that were not explicitly stated by the patient. Only reference information that was directly provided by the patient.'' @ [nl, nl] @
     ''PREVIOUS PATIENT REPORTS:'' @ [nl] @
     userProvidedHistory @ [nl, nl] @
     ''Instructions:'' @ [nl] @
     ''- Review the patient's previously reported symptoms and health information above'' @ [nl] @
     ''- Reference previous symptoms or patterns if relevant'' @ [nl] @
     ''- Note any recurring issues'' @ [nl] @
     ''- Provide continuity of care recommendations'' @ [nl] @
     ''- ONLY reference medical conditions, diagnoses, or health information that was explicitly stated by the patient in their reports'' @ [nl] @
     ''- Do NOT assume chronic conditions or diagnoses unless the patient explicitly mentioned them'' @ [nl] @
     ''- You are given a user's health history and a list of symptoms. You need to diagnose the user's condition and recommend a treatment plan based on the CURRENT symptoms and ONLY the explicitly reported health information.''"

definition userPrompt :: "string option \<Rightarrow> string \<Rightarrow> string" where
  "userPrompt hh syms =
     (if truthy hh
      then ''Additional Context: '' @ the hh @ [nl, nl] @ ''Current Symptoms: '' @ syms
      else ''Current Symptoms: '' @ syms)"

definition badRequest :: response where
  "badRequest =
     res0 \<lparr> statusCode := 400,
            jsonBody := Some [(''error'',
              ''Symptoms are required. Please provide a 'symptoms' field in the request body.'')],
            ended := True \<rparr>"

definition serverError :: "string \<Rightarrow> response" where
  "serverError message =
     res0 \<lparr> statusCode := 500,
            jsonBody := Some [(''error'', ''Internal server error''), (''message'', message)],
            ended := True \<rparr>"

definition streamHeaders :: "(string \<times> string) list" where
  "streamHeaders =
     [(''Content-Type'', ''text/event-stream''), (''Cache-Control'', ''no-cache''),
      (''Connection'', ''keep-alive'')]"

text \<open>The body of the \<^verbatim>\<open>for await\<close> loop: the chunk is counted; a non-empty content is
  added to \<^verbatim>\<open>response\<close> and written to the caller.\<close>

record relay_state =
  responseText :: string
  chunkCount :: nat
  usageInfo :: "string option"
  res :: response

definition relay_chunk :: "relay_state \<Rightarrow> chunk \<Rightarrow> relay_state" where
  "relay_chunk st ch =
     (let st1 = st \<lparr> chunkCount := chunkCount st + 1 \<rparr>;
          st2 = (if truthy (deltaContent ch)
                 then st1 \<lparr> responseText := responseText st1 @ the (deltaContent ch),
                            res := (res st1) \<lparr> written := written (res st1) @ the (deltaContent ch) \<rparr> \<rparr>
                 else st1)
      in (if usage ch \<noteq> None then st2 \<lparr> usageInfo := usage ch \<rparr> else st2))"

definition relay :: "relay_state \<Rightarrow> chunk list \<Rightarrow> relay_state" where
  "relay st chunks = foldl relay_chunk st chunks"

text \<open>The \<^verbatim>\<open>catch (streamError)\<close> clauses: \<^verbatim>\<open>/diagnose\<close> writes three lines,
  \<^verbatim>\<open>/diagnose-test\<close> the first of them.\<close>

definition streamErrorNotice :: "bool \<Rightarrow> string \<Rightarrow> nat \<Rightarrow> nat \<Rightarrow> string" where
  "streamErrorNotice paid streamError count len =
     [nl, nl] @ ''[Error during streaming]: '' @ streamError @ [nl] @
     (if paid
      then ''[Chunks received before error: '' @ num_to_string count @ '']'' @ [nl] @
           ''[Response length before error: '' @ num_to_string len @ '' characters]'' @ [nl]
      else [])"

definition userIdTrailer :: "string \<Rightarrow> string" where
  "userIdTrailer uid = [nl, nl] @ ''--- USER_ID: '' @ uid @ '' ---''"

definition failStream :: "bool \<Rightarrow> string \<Rightarrow> relay_state \<Rightarrow> response" where
  "failStream paid streamError st =
     (res st) \<lparr> written := written (res st) @
                  streamErrorNotice paid streamError (chunkCount st) (length (responseText st)),
                ended := True \<rparr>"

text \<open>The handler of \<^verbatim>\<open>POST /diagnose\<close> (\<open>paid\<close>) and of \<^verbatim>\<open>POST /diagnose-test\<close>, which
  differ in the notice only.  The handler of \<^verbatim>\<open>/diagnose\<close> runs after the payment
  middleware has let the request through.\<close>

definition handleDiagnose :: "bool \<Rightarrow> request \<Rightarrow> env \<Rightarrow> world \<Rightarrow> response \<times> world" where
  "handleDiagnose paid req ev w =
     (if \<not> truthy (req_symptoms req) then (badRequest, w)
      else
        (let effectiveUserId = ensureUserId (req_userId req) (randomUUID ev);
             syms = the (req_symptoms req)
         in case loadUserHistory effectiveUserId (loadTime ev) w of
              (Inl e, w1) \<Rightarrow> (serverError (io_error_name e), w1)
            | (Inr fullHistoryMd, w1) \<Rightarrow>
                (let userProvidedHistory = extractUserProvidedHistory fullHistoryMd;
                     w2 = w1 \<lparr> modelCalls := modelCalls w1 @
                            [(systemPrompt userProvidedHistory,
                              userPrompt (req_healthHistory req) syms)] \<rparr>
                 in case modelReply ev of
                      Inl message \<Rightarrow> (serverError message, w2)
                    | Inr (chunks, fin) \<Rightarrow>
                        (let st0 = \<lparr> responseText = [], chunkCount = 0, usageInfo = None,
                                     res = res0 \<lparr> headers := streamHeaders \<rparr> \<rparr>;
                             st = relay st0 chunks
                         in case fin of
                              StreamThrows streamError \<Rightarrow> (failStream paid streamError st, w2)
                            | StreamDone \<Rightarrow>
                                (case appendToUserHistory effectiveUserId syms (responseText st)
                                        (req_healthHistory req) (appendTime ev) w2 of
                                   (Inl e, w3) \<Rightarrow> (failStream paid (io_error_name e) st, w3)
                                 | (Inr u, w3) \<Rightarrow>
                                     ((res st) \<lparr> written := written (res st) @
                                                   userIdTrailer effectiveUserId,
                                                 ended := True \<rparr>, w3))))))"

definition diagnose :: "request \<Rightarrow> env \<Rightarrow> world \<Rightarrow> response \<times> world" where
  "diagnose = handleDiagnose True"

definition diagnoseTest :: "request \<Rightarrow> env \<Rightarrow> world \<Rightarrow> response \<times> world" where
  "diagnoseTest = handleDiagnose False"

text \<open>The text of a list of chunks: the non-empty contents, in the order of arrival.\<close>

definition relayedText :: "chunk list \<Rightarrow> string" where
  "relayedText chunks =
     concat (map (\<lambda>ch. the (deltaContent ch)) (filter (\<lambda>ch. truthy (deltaContent ch)) chunks))"

section \<open>Line views used in the proofs\<close>

text \<open>The header pattern read on the lines of the text: it matches when the first line
  starts with the title, the second is empty and the third starts with \<^verbatim>\<open>**Created:**\<close>; the
  match is these three lines.\<close>

definition headerOfLines :: "string list \<Rightarrow> string option" where
  "headerOfLines ls =
     (case ls of
        l0 # l1 # l2 # rest \<Rightarrow>
          if prefix headerTitle l0 \<and> l1 = [] \<and> prefix headerCreated l2
          then Some (l0 @ [nl, nl] @ l2) else None
      | _ \<Rightarrow> None)"

text \<open>A text whose lines all end in a line feed.\<close>

definition unlines :: "string list \<Rightarrow> string" where
  "unlines ls = concat (map (\<lambda>l. l @ [nl]) ls)"

definition sessionLine :: "string \<Rightarrow> string" where
  "sessionLine ts = ''### Session '' @ ts"

definition labelLine :: string where
  "labelLine = ''## Session History''"

text \<open>The lines of the header and of a session as the store writes them, and the lines of
  a session that the filter keeps.\<close>

definition headerLines :: "string \<Rightarrow> string \<Rightarrow> string list" where
  "headerLines uid created =
     [titleLine uid, [], createdLine created, [], separator, [], labelLine, []]"

definition entryLines :: "UserSession \<Rightarrow> string list" where
  "entryLines e =
     [[], sessionLine (timestamp e), [], symptomsMarker] @
     split_nl (symptoms e) @ [[]] @
     (if truthy (healthHistory e) then [healthMarker] @ split_nl (the (healthHistory e)) else []) @
     [[], [], diagnosisMarker] @ split_nl (diagnosis e) @
     [[], separator, []]"

definition blockLines :: "UserSession \<Rightarrow> string list" where
  "blockLines e =
     [sessionLine (timestamp e), symptomsMarker] @
     split_nl (symptoms e) @ [[]] @
     (if truthy (healthHistory e) then [healthMarker] @ split_nl (the (healthHistory e)) else []) @
     [[], []]"

text \<open>The blocks pushed so far, with the accumulator when it is not empty.\<close>

definition flushed :: "scan_state \<Rightarrow> string list" where
  "flushed st =
     (if currentSession st \<noteq> [] then userProvidedSections st @ [join [nl] (currentSession st)]
      else userProvidedSections st)"

section \<open>Scenarios\<close>

text \<open>A log with one session, the store that holds it, a request of its user, and a model
  stream that throws after its first chunk.\<close>

definition scenarioSession :: UserSession where
  "scenarioSession = \<lparr> userId = ''u1'', symptoms = ''cough'',
      diagnosis = ''Rest and drink fluids.'', healthHistory = None,
      timestamp = ''2026-02-15T17:03:50.616Z'' \<rparr>"

definition scenarioLog :: string where
  "scenarioLog = renderLog ''u1'' ''2026-02-15T17:03:43.506Z'' [scenarioSession]"

definition scenarioWorld :: world where
  "scenarioWorld = \<lparr> dirExists = True, dirCreatable = True, diskFull = False,
      otherDirs = {},
      files = [filePath ''u1'' \<mapsto> \<lparr> content = scenarioLog, readable = True, writable = True \<rparr>],
      console = [], modelCalls = [] \<rparr>"

definition scenarioRequest :: request where
  "scenarioRequest = \<lparr> req_symptoms = Some ''fever'', req_healthHistory = None,
      req_userId = Some ''u1'' \<rparr>"

definition scenarioUUID :: uuid where
  "scenarioUUID = Abs_uuid ''0b0e7a52-5f0c-4c57-9d3e-2f6f3c0a9b11''"

definition failingEnv :: env where
  "failingEnv = \<lparr> generated = scenarioUUID,
      loadTime = ''2026-02-16T09:00:00.000Z'', appendTime = ''2026-02-16T09:00:05.000Z'',
      modelReply = Inr ([\<lparr> deltaContent = Some ''Based on...'', usage = None \<rparr>],
                        StreamThrows ''Error: connection reset'') \<rparr>"

text \<open>The same store with the log of \<open>u1\<close> write-only.\<close>

definition unreadableWorld :: world where
  "unreadableWorld = scenarioWorld \<lparr> files :=
      [filePath ''u1'' \<mapsto> \<lparr> content = scenarioLog, readable = False, writable = True \<rparr>] \<rparr>"

text \<open>A request without symptoms, one with an empty identifier, and a model stream that
  completes.\<close>

definition emptyRequest :: request where
  "emptyRequest = \<lparr> req_symptoms = Some [], req_healthHistory = None, req_userId = Some ''u1'' \<rparr>"

definition anonymousRequest :: request where
  "anonymousRequest = \<lparr> req_symptoms = Some ''fever'', req_healthHistory = None,
      req_userId = Some [] \<rparr>"

definition completingEnv :: env where
  "completingEnv = failingEnv \<lparr> modelReply :=
      Inr ([\<lparr> deltaContent = Some ''Drink '', usage = None \<rparr>,
            \<lparr> deltaContent = None, usage = None \<rparr>,
            \<lparr> deltaContent = Some ''water.'', usage = Some ''tokens'' \<rparr>], StreamDone) \<rparr>"

text \<open>A log whose only session ends inside its diagnosis, without the closing separator.\<close>

definition truncatedLog :: string where
  "truncatedLog =
     ''### Session 2026-02-15T17:03:50.616Z'' @ [nl, nl] @
     ''**Symptoms Reported:**'' @ [nl] @ ''cough'' @ [nl, nl] @
     ''**Diagnosis & Recommendations:**'' @ [nl] @ ''Rest and drink fluids.''"

text \<open>A second session, with a health context, and the first session with another
  diagnosis.\<close>

definition secondSession :: UserSession where
  "secondSession = \<lparr> userId = ''u1'', symptoms = ''headache'',
      diagnosis = ''Sleep more.'', healthHistory = Some ''asthma'',
      timestamp = ''2026-02-16T08:00:00.000Z'' \<rparr>"

definition otherDiagnosisLog :: string where
  "otherDiagnosisLog = renderLog ''u1'' ''2026-02-15T17:03:43.506Z''
     [scenarioSession \<lparr> diagnosis := ''See a doctor.'' \<rparr>]"

text \<open>A log in which one line holds the symptoms marker and the diagnosis marker.\<close>

definition doubleMarkerLog :: string where
  "doubleMarkerLog =
     ''### Session 2026-02-15T17:03:50.616Z'' @ [nl] @
     ''**Symptoms Reported:** **Diagnosis & Recommendations:**'' @ [nl] @
     ''Rest and drink fluids.''"

definition twoSessionLog :: string where
  "twoSessionLog = renderLog ''u1'' ''2026-02-15T17:03:43.506Z'' [scenarioSession, secondSession]"

section \<open>Properties of the text primitives\<close>

lemma split_nl_not_Nil: "split_nl s \<noteq> []"
  by (induction s) (auto split: list.splits)

lemma split_nl_append_nl: "split_nl (a @ CHR 0x0A # b) = split_nl a @ split_nl b"
  by (induction a) (auto split: list.splits simp: split_nl_not_Nil)

lemma split_nl_no_nl: "CHR 0x0A \<notin> set l \<Longrightarrow> split_nl l = [l]"
  by (induction l) auto

lemma split_nl_line: "CHR 0x0A \<notin> set l \<Longrightarrow> split_nl (l @ CHR 0x0A # b) = l # split_nl b"
  by (simp add: split_nl_append_nl split_nl_no_nl)

lemma split_nl_lines_nl_free: "l \<in> set (split_nl s) \<Longrightarrow> CHR 0x0A \<notin> set l"
  by (induction s arbitrary: l) (auto split: if_splits list.splits)

lemma join_split_nl: "join [CHR 0x0A] (split_nl s) = s"
proof (induction s)
  case Nil
  show ?case by simp
next
  case (Cons c s)
  obtain l ls where sp: "split_nl s = l # ls"
    using split_nl_not_Nil by (cases "split_nl s") auto
  show ?case
  proof (cases "c = CHR 0x0A")
    case True
    with Cons sp show ?thesis by simp
  next
    case False
    with Cons sp show ?thesis by (cases ls) auto
  qed
qed

lemma join_append:
  "xs \<noteq> [] \<Longrightarrow> ys \<noteq> [] \<Longrightarrow> join sep (xs @ ys) = join sep xs @ sep @ join sep ys"
  by (induction sep xs rule: join.induct) (auto simp: neq_Nil_conv)

lemma join_snoc: "xs \<noteq> [] \<Longrightarrow> join sep (xs @ [y]) = join sep xs @ sep @ y"
  by (simp add: join_append)

lemma trim_separator_iff:
  "trim l = ''---'' \<longleftrightarrow>
     (\<exists>a b. l = a @ ''---'' @ b \<and> list_all is_ws a \<and> list_all is_ws b)"
proof
  assume t: "trim l = ''---''"
  define m where "m = dropWhile is_ws l"
  have l: "l = takeWhile is_ws l @ m" by (simp add: m_def)
  have "rev m = takeWhile is_ws (rev m) @ dropWhile is_ws (rev m)" by simp
  then have "m = rev (dropWhile is_ws (rev m)) @ rev (takeWhile is_ws (rev m))"
    by (metis rev_append rev_rev_ident)
  with t have m: "m = ''---'' @ rev (takeWhile is_ws (rev m))"
    by (simp add: trim_def m_def)
  have a: "list_all is_ws (takeWhile is_ws l)"
    by (auto simp: list_all_iff dest: set_takeWhileD)
  have b: "list_all is_ws (rev (takeWhile is_ws (rev m)))"
    by (auto simp: list_all_iff dest: set_takeWhileD)
  from l m have "l = takeWhile is_ws l @ ''---'' @ rev (takeWhile is_ws (rev m))" by metis
  with a b show "\<exists>a b. l = a @ ''---'' @ b \<and> list_all is_ws a \<and> list_all is_ws b"
    by blast
next
  assume "\<exists>a b. l = a @ ''---'' @ b \<and> list_all is_ws a \<and> list_all is_ws b"
  then obtain a b where l: "l = a @ ''---'' @ b"
    and a: "list_all is_ws a" and b: "list_all is_ws b" by blast
  have nw: "\<not> is_ws CHR ''-''" by (simp add: is_ws_def)
  have "dropWhile is_ws (a @ ''---'' @ b) = dropWhile is_ws (''---'' @ b)"
    by (rule dropWhile_append2) (use a in \<open>auto simp: list_all_iff\<close>)
  then have 1: "dropWhile is_ws l = ''---'' @ b"
    using nw by (simp add: l)
  have "dropWhile is_ws (rev b @ ''---'') = dropWhile is_ws ''---''"
    by (rule dropWhile_append2) (use b in \<open>auto simp: list_all_iff\<close>)
  then have 2: "dropWhile is_ws (rev b @ ''---'') = ''---''"
    using nw by simp
  show "trim l = ''---''"
    using 1 2 by (simp add: trim_def)
qed

section \<open>Properties of the line scan\<close>

lemma scan_lines_Nil: "scan_lines st [] = st"
  by (simp add: scan_lines_def)

lemma scan_lines_Cons: "scan_lines st (l # ls) = scan_lines (scan_line st l) ls"
  by (simp add: scan_lines_def)

lemma scan_lines_append: "scan_lines st (xs @ ys) = scan_lines (scan_lines st xs) ys"
  by (simp add: scan_lines_def)

lemma scan_line_plain:
  "plainLine l \<Longrightarrow>
   scan_line st l =
     (if inSymptomsSection st \<or> inHealthContextSection st
      then st \<lparr> currentSession := currentSession st @ [l] \<rparr> else st)"
  by (simp add: plainLine_def scan_line_def)

lemma scan_line_diagnosis:
  "diagnosisLine l \<Longrightarrow>
   scan_line st l = st \<lparr> inSymptomsSection := False, inHealthContextSection := False,
                          inDiagnosisSection := True \<rparr>"
  by (simp add: diagnosisLine_def scan_line_def)

lemma scan_lines_plain_dropped:
  "list_all plainLine ls \<Longrightarrow> \<not> inSymptomsSection st \<Longrightarrow> \<not> inHealthContextSection st \<Longrightarrow>
   scan_lines st ls = st"
  by (induction ls arbitrary: st) (simp_all add: scan_lines_Nil scan_lines_Cons scan_line_plain)

lemma scan_lines_plain_kept:
  "list_all plainLine ls \<Longrightarrow> inSymptomsSection st \<or> inHealthContextSection st \<Longrightarrow>
   scan_lines st ls = st \<lparr> currentSession := currentSession st @ ls \<rparr>"
proof (induction ls arbitrary: st)
  case Nil
  show ?case by (simp add: scan_lines_Nil)
next
  case (Cons l ls)
  from Cons.prems have p: "plainLine l" and ps: "list_all plainLine ls" by simp_all
  let ?st = "st \<lparr> currentSession := currentSession st @ [l] \<rparr>"
  have "scan_lines st (l # ls) = scan_lines ?st ls"
    using Cons.prems(2) p by (simp add: scan_lines_Cons scan_line_plain)
  also have "\<dots> = ?st \<lparr> currentSession := currentSession ?st @ ls \<rparr>"
    using Cons.prems(2) by (intro Cons.IH [OF ps]) simp
  finally show ?case by simp
qed

text \<open>Claim C7 (as amended).  A line that is no marker line resets the three flags, and
  is not appended, exactly when \<^verbatim>\<open>trim()\<close> of it is \<^verbatim>\<open>---\<close>, that is when it is \<^verbatim>\<open>---\<close>
  with white space before or after it; every other such line is appended when the scan is
  inside the symptoms or the health context, and dropped otherwise.\<close>

theorem unmarked_line_step:
  assumes "\<not> matchesSessionStart line"
    and "\<not> includes_str line symptomsMarker"
    and "\<not> includes_str line healthMarker"
    and "\<not> includes_str line diagnosisMarker"
  shows "(trim line = ''---'' \<longleftrightarrow>
            (\<exists>a b. line = a @ ''---'' @ b \<and> list_all is_ws a \<and> list_all is_ws b))
       \<and> scan_line st line =
           (if trim line = ''---''
            then st \<lparr> inSymptomsSection := False, inHealthContextSection := False,
                      inDiagnosisSection := False \<rparr>
            else if inSymptomsSection st \<or> inHealthContextSection st
            then st \<lparr> currentSession := currentSession st @ [line] \<rparr>
            else st)"
  using assms trim_separator_iff [of line]
  by (simp add: scan_line_def separator_def)

theorem unmarked_line_step_witness:
  "scan_line \<lparr> userProvidedSections = [], currentSession = [''**Symptoms Reported:**''],
               inSymptomsSection = True, inHealthContextSection = False,
               inDiagnosisSection = False \<rparr> ''fever since Monday''
   = \<lparr> userProvidedSections = [],
       currentSession = [''**Symptoms Reported:**'', ''fever since Monday''],
       inSymptomsSection = True, inHealthContextSection = False,
       inDiagnosisSection = False \<rparr>"
proof -
  have 1: "\<not> matchesSessionStart ''fever since Monday''"
    by (simp add: matchesSessionStart_def sessionStart_def)
  have 2: "\<not> includes_str ''fever since Monday'' symptomsMarker"
    by (simp add: symptomsMarker_def)
  have 3: "\<not> includes_str ''fever since Monday'' healthMarker"
    by (simp add: healthMarker_def)
  have 4: "\<not> includes_str ''fever since Monday'' diagnosisMarker"
    by (simp add: diagnosisMarker_def)
  have 5: "trim ''fever since Monday'' \<noteq> ''---''"
    by (simp add: trim_def is_ws_def)
  show ?thesis
    using unmarked_line_step [OF 1 2 3 4] 5 by simp
qed

text \<open>Claim C7 as stated fails: the line \<^verbatim>\<open> ---\<close>, with a space before the rule, is not
  the separator itself and holds no marker; inside the symptoms it is not appended, and it
  resets the flags.\<close>

theorem padded_separator_counterexample:
  "'' ---'' \<noteq> ''---'' \<and> \<not> matchesSessionStart '' ---'' \<and>
   \<not> includes_str '' ---'' symptomsMarker \<and> \<not> includes_str '' ---'' healthMarker \<and>
   \<not> includes_str '' ---'' diagnosisMarker \<and>
   scan_line \<lparr> userProvidedSections = [], currentSession = [''**Symptoms Reported:**''],
               inSymptomsSection = True, inHealthContextSection = False,
               inDiagnosisSection = False \<rparr> '' ---''
   = \<lparr> userProvidedSections = [], currentSession = [''**Symptoms Reported:**''],
       inSymptomsSection = False, inHealthContextSection = False,
       inDiagnosisSection = False \<rparr>"
  by (simp add: scan_line_def matchesSessionStart_def sessionStart_def symptomsMarker_def
      healthMarker_def diagnosisMarker_def separator_def trim_def is_ws_def)

text \<open>Claim C8.  At the end of the input the accumulator is pushed exactly when it is not
  empty and the scan is not inside a diagnosis.  So when the text ends after a diagnosis
  line and lines without marker or separator, the result is what was pushed before that
  session: the accumulator, with the symptoms of the session in it, is discarded.\<close>

theorem end_of_input_flush:
  "filterSections text =
     (if currentSession (scan_lines scan_init (split_nl text)) \<noteq> [] \<and>
         \<not> inDiagnosisSection (scan_lines scan_init (split_nl text))
      then userProvidedSections (scan_lines scan_init (split_nl text)) @
           [join [nl] (currentSession (scan_lines scan_init (split_nl text)))]
      else userProvidedSections (scan_lines scan_init (split_nl text)))
   \<and> (\<forall>pre d mid.
        split_nl text = pre @ d # mid \<and> diagnosisLine d \<and> list_all plainLine mid \<longrightarrow>
        filterSections text = userProvidedSections (scan_lines scan_init pre))"
proof -
  have "filterSections text = userProvidedSections (scan_lines scan_init pre)"
    if sp: "split_nl text = pre @ d # mid" and d: "diagnosisLine d"
      and mid: "list_all plainLine mid" for pre d mid
  proof -
    let ?st = "scan_line (scan_lines scan_init pre) d"
    have "scan_lines scan_init (split_nl text) = scan_lines ?st mid"
      by (simp add: sp scan_lines_append scan_lines_Cons)
    also have "\<dots> = ?st"
      by (rule scan_lines_plain_dropped [OF mid]) (simp_all add: scan_line_diagnosis [OF d])
    finally show ?thesis
      by (simp add: filterSections_def scan_finish_def scan_line_diagnosis [OF d])
  qed
  then show ?thesis
    by (simp add: filterSections_def scan_finish_def)
qed

theorem end_of_input_flush_witness:
  "filterSections truncatedLog = [] \<and>
   currentSession (scan_lines scan_init
      [''### Session 2026-02-15T17:03:50.616Z'', [], ''**Symptoms Reported:**'', ''cough'', []])
     = [''### Session 2026-02-15T17:03:50.616Z'', ''**Symptoms Reported:**'', ''cough'', []]"
proof -
  have sp: "split_nl truncatedLog =
      [''### Session 2026-02-15T17:03:50.616Z'', [], ''**Symptoms Reported:**'', ''cough'', []]
      @ ''**Diagnosis & Recommendations:**'' # [''Rest and drink fluids.'']"
    by (simp add: truncatedLog_def nl_def)
  have d: "diagnosisLine ''**Diagnosis & Recommendations:**''"
    by (simp add: diagnosisLine_def matchesSessionStart_def sessionStart_def symptomsMarker_def
        healthMarker_def diagnosisMarker_def)
  have mid: "list_all plainLine [''Rest and drink fluids.'']"
    by (simp add: plainLine_def matchesSessionStart_def sessionStart_def symptomsMarker_def
        healthMarker_def diagnosisMarker_def separator_def trim_def is_ws_def)
  have st: "scan_lines scan_init
      [''### Session 2026-02-15T17:03:50.616Z'', [], ''**Symptoms Reported:**'', ''cough'', []]
    = \<lparr> userProvidedSections = [],
        currentSession = [''### Session 2026-02-15T17:03:50.616Z'', ''**Symptoms Reported:**'',
                          ''cough'', []],
        inSymptomsSection = True, inHealthContextSection = False,
        inDiagnosisSection = False \<rparr>"
    by (simp add: scan_lines_def scan_line_def scan_init_def matchesSessionStart_def
        sessionStart_def symptomsMarker_def healthMarker_def diagnosisMarker_def separator_def
        trim_def is_ws_def)
  from end_of_input_flush [of truncatedLog] sp d mid
  have "filterSections truncatedLog = userProvidedSections (scan_lines scan_init
      [''### Session 2026-02-15T17:03:50.616Z'', [], ''**Symptoms Reported:**'', ''cough'', []])"
    by blast
  then show ?thesis by (simp add: st)
qed

section \<open>Properties of the paths\<close>


lemma USER_DATA_DIR_eq: "USER_DATA_DIR = ''/app/src/user-data''"
  by (simp add: USER_DATA_DIR_def pathJoin_def normalizePath_def moduleDir_def Let_def)

lemma splitSlash_not_Nil: "splitSlash s \<noteq> []"
  by (induction s) (auto split: list.splits)

lemma splitSlash_append: "splitSlash (a @ CHR ''/'' # b) = splitSlash a @ splitSlash b"
  by (induction a) (auto split: list.splits simp: splitSlash_not_Nil)

lemma splitSlash_plain: "CHR ''/'' \<notin> set s \<Longrightarrow> splitSlash s = [s]"
  by (induction s) auto

lemma splitSlash_under_data_dir:
  assumes "CHR ''/'' \<notin> set x"
  shows "splitSlash (''/app/src/user-data'' @ ''/'' @ x) = [[], ''app'', ''src'', ''user-data'', x]"
proof -
  have "splitSlash (''/app/src/user-data'' @ CHR ''/'' # x) =
        splitSlash ''/app/src/user-data'' @ splitSlash x"
    by (rule splitSlash_append)
  then show ?thesis
    by (simp add: splitSlash_plain [OF assms])
qed

lemma filePath_plain:
  assumes "CHR ''/'' \<notin> set uid"
  shows "filePath uid = ''/app/src/user-data/'' @ uid @ ''.md''"
proof -
  let ?x = "uid @ ''.md''"
  have x: "CHR ''/'' \<notin> set ?x" using assms by simp
  have len: "3 \<le> length ?x" by simp
  have ne: "?x \<noteq> []" "?x \<noteq> ''.''" "?x \<noteq> ''..''"
    using len by auto
  have l: "last (''/app/src/user-data'' @ ''/'' @ ?x) = CHR ''d''" by simp
  have "filePath uid = normalizePath (''/app/src/user-data'' @ ''/'' @ ?x)"
    by (simp add: filePath_def pathJoin_def USER_DATA_DIR_eq)
  also have "\<dots> = ''/app/src/user-data/'' @ ?x"
    unfolding normalizePath_def Let_def splitSlash_under_data_dir [OF x] l
    using ne by simp
  finally show ?thesis .
qed

lemma parentDir_plain:
  assumes "CHR ''/'' \<notin> set uid"
  shows "parentDir (filePath uid) = USER_DATA_DIR"
proof -
  have x: "CHR ''/'' \<notin> set (uid @ ''.md'')" using assms by simp
  have "filePath uid = ''/app/src/user-data'' @ ''/'' @ (uid @ ''.md'')"
    by (simp add: filePath_plain [OF assms])
  then show ?thesis
    by (simp only: parentDir_def splitSlash_under_data_dir [OF x])
       (simp add: USER_DATA_DIR_eq)
qed

lemma utf8Length_append: "utf8Length (a @ b) = utf8Length a + utf8Length b"
  by (simp add: utf8Length_def)

lemma utf8Length_le: "utf8Length s \<le> 2 * length s"
  by (induction s) (simp_all add: utf8Length_def)

lemma namesFit_plain:
  assumes "CHR ''/'' \<notin> set uid" and "utf8Length uid \<le> 252"
  shows "namesFit (filePath uid)"
proof -
  have x: "CHR ''/'' \<notin> set (uid @ ''.md'')" using assms by simp
  have f: "filePath uid = ''/app/src/user-data'' @ ''/'' @ (uid @ ''.md'')"
    by (simp add: filePath_plain [OF assms(1)])
  have c: "utf8Length ''.md'' = 3" "utf8Length ''app'' = 3" "utf8Length ''src'' = 3"
    "utf8Length ''user-data'' = 9" "utf8Length ''/app/src/user-data/'' = 19"
    "utf8Length [] = 0"
    by (simp_all add: utf8Length_def)
  have t: "utf8Length (filePath uid) = 19 + utf8Length uid + 3"
    by (simp only: filePath_plain [OF assms(1)] utf8Length_append c)
  show ?thesis
    unfolding namesFit_def t
    using assms(2)
    by (simp only: f splitSlash_under_data_dir [OF x]) (simp add: utf8Length_append c)
qed

lemma pathError_plain:
  assumes "CHR ''/'' \<notin> set uid" and "CHR 0x00 \<notin> set uid" and "utf8Length uid \<le> 252"
  shows "pathError w (filePath uid) = (if dirExists w then None else Some ENOENT)"
proof -
  have z: "CHR 0x00 \<notin> set (filePath uid)"
    using assms(2) by (simp add: filePath_plain [OF assms(1)])
  show ?thesis
    by (simp add: pathError_def z namesFit_plain [OF assms(1,3)] parentDir_plain [OF assms(1)]
        dirPresent_def)
qed

lemma filePath_inject:
  "CHR ''/'' \<notin> set a \<Longrightarrow> CHR ''/'' \<notin> set b \<Longrightarrow> filePath a = filePath b \<longleftrightarrow> a = b"
  by (simp add: filePath_plain)

lemma isUUID_chars:
  assumes "isUUID s"
  shows "set s \<subseteq> set hexDigits \<union> {CHR ''-''}" and "length s = 36"
proof -
  let ?f = "\<lambda>c. if c \<in> set hexDigits then CHR ''h''
                else if c = CHR ''-'' then CHR ''-'' else CHR ''?''"
  from assms have m: "map ?f s = ''hhhhhhhh-hhhh-hhhh-hhhh-hhhhhhhhhhhh''"
    by (simp add: isUUID_def)
  have "length (map ?f s) = 36" by (simp only: m) simp
  then show "length s = 36" by simp
  show "set s \<subseteq> set hexDigits \<union> {CHR ''-''}"
  proof
    fix c assume "c \<in> set s"
    then have "?f c \<in> set (map ?f s)" by (rule imageI [of c "set s" ?f, simplified set_map [symmetric]])
    then have "?f c \<in> set ''hhhhhhhh-hhhh-hhhh-hhhh-hhhhhhhhhhhh''" by (simp only: m)
    then show "c \<in> set hexDigits \<union> {CHR ''-''}"
      by (auto split: if_splits)
  qed
qed

lemma isUUID_plain:
  assumes "isUUID s"
  shows "CHR ''/'' \<notin> set s" and "CHR 0x00 \<notin> set s" and "utf8Length s \<le> 252" and "s \<noteq> []"
proof -
  note c = isUUID_chars [OF assms]
  show "CHR ''/'' \<notin> set s" "CHR 0x00 \<notin> set s"
    using c(1) by (auto simp: hexDigits_def)
  show "utf8Length s \<le> 252"
    using utf8Length_le [of s] c(2) by simp
  show "s \<noteq> []" using c(2) by auto
qed

lemma isUUID_randomUUID: "isUUID (randomUUID ev)"
  using Rep_uuid [of "generated ev"] by (simp add: randomUUID_def)

lemma Rep_scenarioUUID: "Rep_uuid scenarioUUID = ''0b0e7a52-5f0c-4c57-9d3e-2f6f3c0a9b11''"
  unfolding scenarioUUID_def
  by (rule Abs_uuid_inverse) (simp add: isUUID_def hexDigits_def)

lemma filePath_normalises: "filePath ''x/../u1'' = filePath ''u1''"
  by (simp add: filePath_def pathJoin_def normalizePath_def USER_DATA_DIR_eq Let_def)

lemma plain_names:
  "CHR ''/'' \<notin> set ''u1''" "CHR 0x00 \<notin> set ''u1''" "utf8Length ''u1'' \<le> 252"
  "CHR ''/'' \<notin> set ''u2''" "CHR 0x00 \<notin> set ''u2''" "utf8Length ''u2'' \<le> 252"
  "CHR ''/'' \<notin> set []"
  by (simp_all add: utf8Length_def)

section \<open>Properties of the store\<close>

text \<open>An identifier with a path separator names a file below the data directory: when
  that directory is missing, the log cannot be created and the load fails.\<close>

lemma load_missing_subdirectory:
  "filePath ''a/b'' = ''/app/src/user-data/a/b.md'' \<and>
   loadUserHistory ''a/b'' now scenarioWorld = (Inl ENOENT, scenarioWorld)"
proof -
  have f: "filePath ''a/b'' = ''/app/src/user-data/a/b.md''"
    by (simp add: filePath_def pathJoin_def normalizePath_def USER_DATA_DIR_eq Let_def)
  have e: "pathError scenarioWorld ''/app/src/user-data/a/b.md'' = Some ENOENT"
    by (simp add: pathError_def namesFit_def utf8Length_def parentDir_def dirPresent_def
        USER_DATA_DIR_eq scenarioWorld_def)
  show ?thesis
    by (simp add: f loadUserHistory_def readFile_def writeFile_def e)
qed

lemma appendToUserHistory_error:
  "appendFile w (filePath uid) (sessionEntry now syms diag hh) = Inl e \<Longrightarrow>
   appendToUserHistory uid syms diag hh now w = (Inl e, w)"
  by (simp add: appendToUserHistory_def)

lemma loadUserHistory_write_error:
  "readFile w (filePath uid) = Inl e \<Longrightarrow>
   writeFile w (filePath uid) (initialContent uid now) = Inl e' \<Longrightarrow>
   loadUserHistory uid now w = (Inl e', w)"
  by (simp add: loadUserHistory_def)

lemma initializeUserDataDir_failure:
  "mkdir w = Inl e \<Longrightarrow>
   initializeUserDataDir w =
     w \<lparr> console := console w @ [''Failed to create user data directory: '' @ io_error_name e] \<rparr>"
  by (simp add: initializeUserDataDir_def)

lemma loadUserHistory_files_elsewhere:
  "p \<noteq> filePath uid \<Longrightarrow> files (snd (loadUserHistory uid now w)) p = files w p"
  by (auto simp: loadUserHistory_def writeFile_def split: sum.splits option.splits if_splits)

lemma appendToUserHistory_files_elsewhere:
  "p \<noteq> filePath uid \<Longrightarrow> files (snd (appendToUserHistory uid s d h now w)) p = files w p"
  by (auto simp: appendToUserHistory_def appendFile_def split: sum.splits option.splits if_splits)

text \<open>Claim C3 fails on \<^verbatim>\<open>loadUserHistory\<close>.  The log of \<open>u1\<close> exists and cannot be read
  (\<open>EACCES\<close>, not \<open>ENOENT\<close>); the \<^verbatim>\<open>catch\<close> clause, whose comment reads ``File doesn't
  exist, create new one'', takes that error too: the load succeeds with a fresh header and
  the log that was there is overwritten.\<close>

theorem load_unreadable_log_overwritten:
  "readFile unreadableWorld (filePath ''u1'') = Inl EACCES \<and>
   loadUserHistory ''u1'' ''2026-02-16T09:00:00.000Z'' unreadableWorld =
     (Inr (initialContent ''u1'' ''2026-02-16T09:00:00.000Z''),
      unreadableWorld \<lparr> files :=
        [filePath ''u1'' \<mapsto> \<lparr> content = initialContent ''u1'' ''2026-02-16T09:00:00.000Z'',
                                readable = False, writable = True \<rparr>] \<rparr>)"
  by (simp add: loadUserHistory_def readFile_def writeFile_def unreadableWorld_def
      scenarioWorld_def pathError_plain plain_names)



section \<open>Properties of the handlers\<close>

lemma relay_responseText:
  "responseText (relay st chunks) = responseText st @ relayedText chunks"
  unfolding relay_def relayedText_def
  by (induction chunks arbitrary: st) (auto simp: relay_chunk_def Let_def)

lemma relay_chunkCount: "chunkCount (relay st chunks) = chunkCount st + length chunks"
  unfolding relay_def
  by (induction chunks arbitrary: st) (auto simp: relay_chunk_def Let_def)

lemma relay_res:
  "res (relay st chunks) = (res st) \<lparr> written := written (res st) @ relayedText chunks \<rparr>"
  unfolding relay_def relayedText_def
  by (induction chunks arbitrary: st) (auto simp: relay_chunk_def Let_def)

lemma handleDiagnose_files_elsewhere:
  assumes "p \<noteq> filePath (ensureUserId (req_userId req) (randomUUID ev))"
  shows "files (snd (handleDiagnose paid req ev w)) p = files w p"
proof -
  let ?uid = "ensureUserId (req_userId req) (randomUUID ev)"
  have l: "\<And>r w1. loadUserHistory ?uid (loadTime ev) w = (r, w1) \<Longrightarrow> files w1 p = files w p"
    using loadUserHistory_files_elsewhere [OF assms, of "loadTime ev" w] by simp
  have a: "\<And>s d h now w2 r w3.
      appendToUserHistory ?uid s d h now w2 = (r, w3) \<Longrightarrow> files w3 p = files w2 p"
    using appendToUserHistory_files_elsewhere [OF assms] by (metis snd_conv)
  show ?thesis
    unfolding handleDiagnose_def Let_def
    by (auto split: prod.splits sum.splits stream_end.splits dest!: l a)
qed

lemma num_to_string_1: "num_to_string (Suc 0) = ''1''"
  by (simp add: num_to_string.simps digit_char_def)

lemma num_to_string_11: "num_to_string 11 = ''11''"
  by (simp add: num_to_string.simps digit_char_def)

text \<open>Claim C6.  A request whose symptoms are missing or empty is answered with status
  400 by both handlers, and the state is the one before the request: no file was read,
  created or appended to, and nothing was sent to the model.\<close>

theorem missing_symptoms_rejected:
  assumes "req_symptoms req = None \<or> req_symptoms req = Some []"
  shows "diagnose req ev w = (badRequest, w) \<and> diagnoseTest req ev w = (badRequest, w) \<and>
         statusCode badRequest = 400 \<and> ended badRequest \<and> written badRequest = []"
  using assms
  by (auto simp: diagnose_def diagnoseTest_def handleDiagnose_def truthy_def badRequest_def
      res0_def)

theorem missing_symptoms_rejected_witness:
  "diagnose emptyRequest failingEnv scenarioWorld = (badRequest, scenarioWorld) \<and>
   diagnoseTest emptyRequest completingEnv scenarioWorld = (badRequest, scenarioWorld)"
proof -
  have e: "req_symptoms emptyRequest = None \<or> req_symptoms emptyRequest = Some []"
    by (simp add: emptyRequest_def)
  show ?thesis
    using missing_symptoms_rejected [OF e, of failingEnv scenarioWorld]
          missing_symptoms_rejected [OF e, of completingEnv scenarioWorld]
    by simp
qed

text \<open>Claim C5.  When the log was loaded and the model stream throws after some chunks,
  the caller has received the text of these chunks followed by the error notice, the
  response is ended, and nothing is appended: the files are those that the load left, and
  those before the request when the log was there.\<close>

theorem stream_error_leaves_log:
  assumes "truthy (req_symptoms req)"
    and "loadUserHistory (ensureUserId (req_userId req) (randomUUID ev)) (loadTime ev) w = (Inr md, w1)"
    and "modelReply ev = Inr (chunks, StreamThrows err)"
  shows "handleDiagnose paid req ev w =
           (\<lparr> statusCode = 200, headers = streamHeaders, jsonBody = None,
              written = relayedText chunks @
                streamErrorNotice paid err (length chunks) (length (relayedText chunks)),
              ended = True \<rparr>,
            w1 \<lparr> modelCalls := modelCalls w1 @
                   [(systemPrompt (extractUserProvidedHistory md),
                     userPrompt (req_healthHistory req) (the (req_symptoms req)))] \<rparr>)
         \<and> files (snd (handleDiagnose paid req ev w)) = files w1
         \<and> (readFile w (filePath (ensureUserId (req_userId req) (randomUUID ev))) = Inr md
              \<longrightarrow> files (snd (handleDiagnose paid req ev w)) = files w)"
proof -
  have ex: "readFile w (filePath (ensureUserId (req_userId req) (randomUUID ev))) = Inr md
            \<Longrightarrow> w1 = w"
    using assms(2) by (simp add: loadUserHistory_def)
  have h: "handleDiagnose paid req ev w =
           (\<lparr> statusCode = 200, headers = streamHeaders, jsonBody = None,
              written = relayedText chunks @
                streamErrorNotice paid err (length chunks) (length (relayedText chunks)),
              ended = True \<rparr>,
            w1 \<lparr> modelCalls := modelCalls w1 @
                   [(systemPrompt (extractUserProvidedHistory md),
                     userPrompt (req_healthHistory req) (the (req_symptoms req)))] \<rparr>)"
    using assms
    by (simp add: handleDiagnose_def Let_def failStream_def relay_res relay_chunkCount
        relay_responseText res0_def)
  show ?thesis using h ex by auto
qed

theorem stream_error_leaves_log_witness:
  "written (fst (diagnose scenarioRequest failingEnv scenarioWorld)) =
     ''Based on...'' @ [nl, nl] @ ''[Error during streaming]: Error: connection reset'' @ [nl] @
     ''[Chunks received before error: 1]'' @ [nl] @
     ''[Response length before error: 11 characters]'' @ [nl]
   \<and> ended (fst (diagnose scenarioRequest failingEnv scenarioWorld))
   \<and> files (snd (diagnose scenarioRequest failingEnv scenarioWorld)) = files scenarioWorld"
proof -
  have t: "truthy (req_symptoms scenarioRequest)"
    by (simp add: scenarioRequest_def truthy_def)
  have u: "ensureUserId (req_userId scenarioRequest) (randomUUID failingEnv) = ''u1''"
    by (simp add: scenarioRequest_def ensureUserId_def truthy_def)
  have r: "readFile scenarioWorld (filePath ''u1'') = Inr scenarioLog"
    by (simp add: readFile_def scenarioWorld_def pathError_plain plain_names)
  have l: "loadUserHistory (ensureUserId (req_userId scenarioRequest) (randomUUID failingEnv))
            (loadTime failingEnv) scenarioWorld = (Inr scenarioLog, scenarioWorld)"
    by (simp add: u loadUserHistory_def r)
  have m: "modelReply failingEnv =
      Inr ([\<lparr> deltaContent = Some ''Based on...'', usage = None \<rparr>],
           StreamThrows ''Error: connection reset'')"
    by (simp add: failingEnv_def)
  have e11: "Suc (Suc (Suc (Suc (Suc (Suc (Suc (Suc (Suc (Suc (Suc 0)))))))))) = 11"
    by simp
  show ?thesis
    using stream_error_leaves_log [OF t l m, of True] r
    by (simp add: diagnose_def u relayedText_def truthy_def streamErrorNotice_def e11
        num_to_string_11 num_to_string_1)
qed

text \<open>Claim C10.  \<^verbatim>\<open>ensureUserId\<close> returns a given identifier that is not empty, and the
  generated one when the identifier is absent or empty.  So a request with an absent or
  empty identifier never touches the log keyed by the empty string, and when the store
  works and the stream completes its session is in a new log keyed by the generated
  identifier.\<close>

theorem ensureUserId_generates_for_empty:
  "ensureUserId (Some s) uuid = (if s \<noteq> [] then s else uuid)
   \<and> ensureUserId None uuid = uuid
   \<and> ((req_userId req = None \<or> req_userId req = Some []) \<and> randomUUID ev \<noteq> [] \<longrightarrow>
        files (snd (handleDiagnose paid req ev w)) (filePath []) = files w (filePath []))
   \<and> ((req_userId req = None \<or> req_userId req = Some []) \<and> truthy (req_symptoms req) \<and>
      modelReply ev = Inr (chunks, StreamDone) \<and>
      dirExists w \<and> \<not> diskFull w \<and> files w (filePath (randomUUID ev)) = None \<longrightarrow>
        map_option content (files (snd (handleDiagnose paid req ev w)) (filePath (randomUUID ev)))
        = Some (initialContent (randomUUID ev) (loadTime ev) @
                sessionEntry (appendTime ev) (the (req_symptoms req)) (relayedText chunks)
                  (req_healthHistory req)))"
proof -
  have 1: "ensureUserId (Some s) uuid = (if s \<noteq> [] then s else uuid)"
    by (simp add: ensureUserId_def truthy_def)
  have 2: "ensureUserId None uuid = uuid"
    by (simp add: ensureUserId_def truthy_def)
  have u: "ensureUserId (req_userId req) (randomUUID ev) = randomUUID ev"
    if "req_userId req = None \<or> req_userId req = Some []"
    using that by (auto simp: ensureUserId_def truthy_def)
  note g = isUUID_plain [OF isUUID_randomUUID [of ev]]
  have ne: "filePath [] \<noteq> filePath (randomUUID ev)"
    using filePath_inject [of "[]" "randomUUID ev"] g(1,4) by auto
  have 3: "files (snd (handleDiagnose paid req ev w)) (filePath []) = files w (filePath [])"
    if "req_userId req = None \<or> req_userId req = Some []" and "randomUUID ev \<noteq> []"
    by (rule handleDiagnose_files_elsewhere) (use that u ne in auto)
  have 4: "map_option content (files (snd (handleDiagnose paid req ev w)) (filePath (randomUUID ev)))
        = Some (initialContent (randomUUID ev) (loadTime ev) @
                sessionEntry (appendTime ev) (the (req_symptoms req)) (relayedText chunks)
                  (req_healthHistory req))"
    if "req_userId req = None \<or> req_userId req = Some []" and "truthy (req_symptoms req)"
      and "modelReply ev = Inr (chunks, StreamDone)"
      and "dirExists w" and "\<not> diskFull w" and "files w (filePath (randomUUID ev)) = None"
    using that u
    by (simp add: handleDiagnose_def Let_def loadUserHistory_def readFile_def writeFile_def
        appendToUserHistory_def appendFile_def relay_responseText
        pathError_plain [OF g(1,2,3)])
  show ?thesis using 1 2 3 4 by blast
qed

theorem ensureUserId_generates_for_empty_witness:
  "ensureUserId (Some ''u1'') ''0b0e7a52-5f0c-4c57-9d3e-2f6f3c0a9b11'' = ''u1''
   \<and> ensureUserId (Some []) ''0b0e7a52-5f0c-4c57-9d3e-2f6f3c0a9b11'' =
       ''0b0e7a52-5f0c-4c57-9d3e-2f6f3c0a9b11''
   \<and> files (snd (diagnose anonymousRequest completingEnv scenarioWorld)) (filePath []) = None
   \<and> map_option content (files (snd (diagnose anonymousRequest completingEnv scenarioWorld))
        (filePath ''0b0e7a52-5f0c-4c57-9d3e-2f6f3c0a9b11''))
     = Some (initialContent ''0b0e7a52-5f0c-4c57-9d3e-2f6f3c0a9b11'' ''2026-02-16T09:00:00.000Z'' @
             sessionEntry ''2026-02-16T09:00:05.000Z'' ''fever'' ''Drink water.'' None)"
proof -
  have a: "req_userId anonymousRequest = None \<or> req_userId anonymousRequest = Some []"
    by (simp add: anonymousRequest_def)
  have b: "randomUUID completingEnv \<noteq> []"
    by (simp add: randomUUID_def completingEnv_def failingEnv_def Rep_scenarioUUID)
  have c: "truthy (req_symptoms anonymousRequest)"
    by (simp add: anonymousRequest_def truthy_def)
  have d: "modelReply completingEnv =
      Inr ([\<lparr> deltaContent = Some ''Drink '', usage = None \<rparr>,
            \<lparr> deltaContent = None, usage = None \<rparr>,
            \<lparr> deltaContent = Some ''water.'', usage = Some ''tokens'' \<rparr>], StreamDone)"
    by (simp add: completingEnv_def)
  have e: "dirExists scenarioWorld \<and> \<not> diskFull scenarioWorld \<and>
      files scenarioWorld (filePath (randomUUID completingEnv)) = None \<and>
      files scenarioWorld (filePath []) = None"
    by (simp add: scenarioWorld_def randomUUID_def completingEnv_def failingEnv_def
        Rep_scenarioUUID filePath_inject plain_names)
  have f: "relayedText [\<lparr> deltaContent = Some ''Drink '', usage = None \<rparr>,
            \<lparr> deltaContent = None, usage = None \<rparr>,
            \<lparr> deltaContent = Some ''water.'', usage = Some ''tokens'' \<rparr>] = ''Drink water.''"
    by (simp add: relayedText_def truthy_def)
  have g: "randomUUID completingEnv = ''0b0e7a52-5f0c-4c57-9d3e-2f6f3c0a9b11'' \<and>
      loadTime completingEnv = ''2026-02-16T09:00:00.000Z'' \<and>
      appendTime completingEnv = ''2026-02-16T09:00:05.000Z'' \<and>
      req_symptoms anonymousRequest = Some ''fever'' \<and>
      req_healthHistory anonymousRequest = None"
    by (simp add: randomUUID_def completingEnv_def failingEnv_def anonymousRequest_def
        Rep_scenarioUUID)
  note th = ensureUserId_generates_for_empty [of _ _ anonymousRequest completingEnv True
      scenarioWorld]
  have 1: "ensureUserId (Some ''u1'') ''0b0e7a52-5f0c-4c57-9d3e-2f6f3c0a9b11'' = ''u1''"
    using th [of "''u1''" "''0b0e7a52-5f0c-4c57-9d3e-2f6f3c0a9b11''"] by simp
  have 2: "ensureUserId (Some []) ''0b0e7a52-5f0c-4c57-9d3e-2f6f3c0a9b11'' =
       ''0b0e7a52-5f0c-4c57-9d3e-2f6f3c0a9b11''"
    using th [of "[]" "''0b0e7a52-5f0c-4c57-9d3e-2f6f3c0a9b11''"] by simp
  have 3: "files (snd (diagnose anonymousRequest completingEnv scenarioWorld)) (filePath []) = None"
    using th [of "[]" "[]"] a b e by (simp add: diagnose_def)
  have 4: "map_option content (files (snd (diagnose anonymousRequest completingEnv scenarioWorld))
        (filePath ''0b0e7a52-5f0c-4c57-9d3e-2f6f3c0a9b11''))
     = Some (initialContent ''0b0e7a52-5f0c-4c57-9d3e-2f6f3c0a9b11'' ''2026-02-16T09:00:00.000Z'' @
             sessionEntry ''2026-02-16T09:00:05.000Z'' ''fever'' ''Drink water.'' None)"
    using th [of "[]" "[]" "[\<lparr> deltaContent = Some ''Drink '', usage = None \<rparr>,
            \<lparr> deltaContent = None, usage = None \<rparr>,
            \<lparr> deltaContent = Some ''water.'', usage = Some ''tokens'' \<rparr>]"] a c d e f g
    by (simp add: diagnose_def)
  show ?thesis using 1 2 3 4 by blast
qed

section \<open>The header pattern on lines\<close>


lemma split_nl_unfold:
  "split_nl s = takeWhile not_nl s # (case dropWhile not_nl s of [] \<Rightarrow> [] | c # r \<Rightarrow> split_nl r)"
  by (induction s) (auto simp: not_nl_def split: list.splits)

lemma dropWhile_not_nl_cases:
  "dropWhile not_nl s = [] \<or> (\<exists>r. dropWhile not_nl s = CHR 0x0A # r)"
  by (induction s) (auto simp: not_nl_def)

lemma prefix_first_line:
  "CHR 0x0A \<notin> set p \<Longrightarrow> prefix p s \<longleftrightarrow> prefix p (takeWhile not_nl s)"
proof (induction p arbitrary: s)
  case Nil
  show ?case by simp
next
  case (Cons c p)
  then show ?case by (cases s) (auto simp: not_nl_def)
qed

lemma drop_first_line:
  "prefix p (takeWhile not_nl s) \<Longrightarrow>
   takeWhile not_nl (drop (length p) s) = drop (length p) (takeWhile not_nl s) \<and>
   dropWhile not_nl (drop (length p) s) = dropWhile not_nl s"
proof (induction p arbitrary: s)
  case Nil
  show ?case by simp
next
  case (Cons c p)
  then show ?case by (cases s) (auto split: if_splits)
qed

lemma headerMatch_lines: "headerMatch s = headerOfLines (split_nl s)"
proof -
  define l0 where "l0 = takeWhile not_nl s"
  define d0 where "d0 = dropWhile not_nl s"
  have ptitle: "prefix headerTitle s \<longleftrightarrow> prefix headerTitle l0"
    unfolding l0_def by (rule prefix_first_line) (simp add: headerTitle_def)
  have sp0: "split_nl s = l0 # (case d0 of [] \<Rightarrow> [] | c # r \<Rightarrow> split_nl r)"
    unfolding l0_def d0_def by (rule split_nl_unfold)
  show ?thesis
  proof (cases "prefix headerTitle l0")
    case False
    then have "headerMatch s = None" by (simp add: headerMatch_def ptitle)
    moreover have "headerOfLines (split_nl s) = None"
      using False by (simp add: sp0 headerOfLines_def split: list.splits)
    ultimately show ?thesis by simp
  next
    case True
    have dra: "takeWhile not_nl (drop (length headerTitle) s) = drop (length headerTitle) l0"
      and drb: "dropWhile not_nl (drop (length headerTitle) s) = d0"
      using drop_first_line [of headerTitle s] True by (simp_all add: l0_def d0_def)
    have l0eq: "l0 = headerTitle @ drop (length headerTitle) l0"
      using True by (metis append_eq_conv_conj prefixE)
    consider (one) "d0 = []" | (more) s1 where "d0 = CHR 0x0A # s1"
      using dropWhile_not_nl_cases [of s] by (auto simp: d0_def)
    then show ?thesis
    proof cases
      case one
      then show ?thesis
        using True by (simp add: headerMatch_def ptitle Let_def sp0 headerOfLines_def dra drb)
    next
      case more
      define l1 where "l1 = takeWhile not_nl s1"
      define d1 where "d1 = dropWhile not_nl s1"
      have sp1: "split_nl s1 = l1 # (case d1 of [] \<Rightarrow> [] | c # r \<Rightarrow> split_nl r)"
        unfolding l1_def d1_def by (rule split_nl_unfold)
      have s1: "s1 = l1 @ d1" by (simp add: l1_def d1_def)
      have l1nl: "CHR 0x0A \<notin> set l1"
        by (auto simp: l1_def not_nl_def dest: set_takeWhileD)
      consider (one1) "d1 = []" | (more1) s2 where "d1 = CHR 0x0A # s2"
        using dropWhile_not_nl_cases [of s1] by (auto simp: d1_def)
      then show ?thesis
      proof cases
        case one1
        have "\<not> prefix (CHR 0x0A # headerCreated) s1"
          using l1nl one1 s1 by (cases s1) auto
        then show ?thesis
          using True
          by (simp add: headerMatch_def ptitle Let_def sp0 sp1 headerOfLines_def nl_def dra drb
              more one1)
      next
        case more1
        define l2 where "l2 = takeWhile not_nl s2"
        have sp2: "split_nl s2 = l2 # (case dropWhile not_nl s2 of [] \<Rightarrow> [] | c # r \<Rightarrow> split_nl r)"
          unfolding l2_def by (rule split_nl_unfold)
        have pc: "prefix headerCreated s2 \<longleftrightarrow> prefix headerCreated l2"
          unfolding l2_def by (rule prefix_first_line) (simp add: headerCreated_def)
        have p1: "prefix (CHR 0x0A # headerCreated) s1 \<longleftrightarrow> l1 = [] \<and> prefix headerCreated l2"
          using l1nl more1 s1 pc by (cases l1) auto
        show ?thesis
        proof (cases "l1 = [] \<and> prefix headerCreated l2")
          case False
          then show ?thesis
            using True p1
            by (auto simp: headerMatch_def ptitle Let_def sp0 sp1 sp2 headerOfLines_def nl_def
                dra drb more more1)
        next
          case t: True
          then have s1eq: "s1 = CHR 0x0A # s2" using s1 more1 by simp
          note dr2 = drop_first_line [of headerCreated s2, unfolded l2_def [symmetric]]
          have l2eq: "l2 = headerCreated @ drop (length headerCreated) l2"
            using t by (metis append_eq_conv_conj prefixE)
          have b: "takeWhile not_nl (drop (length headerCreated) s2) = drop (length headerCreated) l2"
            using dr2 t by simp
          have "headerMatch s = Some (headerTitle @ drop (length headerTitle) l0 @ [nl, nl] @
                  headerCreated @ drop (length headerCreated) l2)"
            using True p1 t
            by (simp add: headerMatch_def ptitle Let_def nl_def dra drb more s1eq b)
          also have "\<dots> = Some (l0 @ [nl, nl] @ l2)"
            using l0eq l2eq by (metis append_assoc)
          finally show ?thesis
            using True t
            by (simp add: sp0 sp1 sp2 headerOfLines_def more more1)
        qed
      qed
    qed
  qed
qed


section \<open>The filter on the logs that the store writes\<close>


lemma unlines_Nil: "unlines [] = []"
  by (simp add: unlines_def)

lemma unlines_Cons: "unlines (l # ls) = l @ [nl] @ unlines ls"
  by (simp add: unlines_def)

lemma unlines_append: "unlines (a @ b) = unlines a @ unlines b"
  by (simp add: unlines_def)

lemma unlines_split_nl: "unlines (split_nl s) = s @ [nl]"
  by (induction s) (auto simp: unlines_def nl_def split: list.splits)

lemma split_nl_unlines:
  "list_all nlFree ls \<Longrightarrow> split_nl (unlines ls @ t) = ls @ split_nl t"
  by (induction ls) (simp_all add: unlines_Nil unlines_Cons nlFree_def nl_def split_nl_line)

lemma join_unlines: "ls \<noteq> [] \<Longrightarrow> join [nl] ls @ [nl] = unlines ls"
  by (induction "[nl]" ls rule: join.induct) (simp_all add: unlines_Nil unlines_Cons)

lemma nlFree_split_nl: "list_all nlFree (split_nl s)"
  by (simp add: list_all_iff nlFree_def split_nl_lines_nl_free)

lemma initialContent_unlines: "initialContent uid created = unlines (headerLines uid created)"
  by (simp add: initialContent_def headerLines_def unlines_Cons unlines_Nil titleLine_def
      createdLine_def separator_def labelLine_def)

lemma entryText_unlines: "entryText e = unlines (entryLines e)"
  by (simp add: entryText_def sessionEntry_def entryLines_def unlines_append unlines_Cons
      unlines_Nil unlines_split_nl sessionLine_def symptomsMarker_def healthMarker_def
      diagnosisMarker_def separator_def)

lemma userBlock_unlines: "userBlock e @ [nl] = unlines (blockLines e)"
  by (simp add: userBlock_def blockLines_def unlines_append unlines_Cons unlines_Nil
      unlines_split_nl sessionLine_def symptomsMarker_def healthMarker_def)

lemma blockLines_not_Nil: "blockLines e \<noteq> []"
  by (simp add: blockLines_def)

lemma join_blockLines: "join [nl] (blockLines e) = userBlock e"
proof -
  have "join [nl] (blockLines e) @ [nl] = userBlock e @ [nl]"
    by (simp only: join_unlines [OF blockLines_not_Nil] userBlock_unlines)
  then show ?thesis by (simp only: append_same_eq)
qed

lemma join_blockLines_pad1: "join [nl] (blockLines e @ [[]]) = userBlock e @ [nl]"
  by (simp add: join_snoc blockLines_not_Nil join_blockLines)

lemma join_blockLines_pad2: "join [nl] (blockLines e @ [[], []]) = userBlock e @ [nl, nl]"
  using join_snoc [of "blockLines e @ [[]]" "[nl]" "[]"]
  by (simp add: join_blockLines_pad1)

lemma plainLine_empty: "plainLine []"
  by (simp add: plainLine_def matchesSessionStart_def sessionStart_def symptomsMarker_def
      healthMarker_def diagnosisMarker_def separator_def trim_def)

lemma plainLine_labelLine: "plainLine labelLine"
  by (simp add: plainLine_def labelLine_def matchesSessionStart_def sessionStart_def
      symptomsMarker_def healthMarker_def diagnosisMarker_def separator_def trim_def is_ws_def)

lemma scan_line_empty:
  "scan_line st [] =
     (if inSymptomsSection st \<or> inHealthContextSection st
      then st \<lparr> currentSession := currentSession st @ [[]] \<rparr> else st)"
  by (rule scan_line_plain [OF plainLine_empty])

lemma scan_line_sessionLine:
  "scan_line st (sessionLine ts) =
     st \<lparr> userProvidedSections := flushed st, currentSession := [sessionLine ts],
          inSymptomsSection := False, inHealthContextSection := False,
          inDiagnosisSection := False \<rparr>"
  by (simp add: scan_line_def sessionLine_def matchesSessionStart_def sessionStart_def flushed_def)

lemma scan_line_symptomsMarker:
  "scan_line st symptomsMarker =
     st \<lparr> inSymptomsSection := True, inHealthContextSection := False,
          inDiagnosisSection := False, currentSession := currentSession st @ [symptomsMarker] \<rparr>"
proof -
  have "\<not> matchesSessionStart symptomsMarker" "includes_str symptomsMarker symptomsMarker"
    by (simp_all add: matchesSessionStart_def sessionStart_def symptomsMarker_def)
  then show ?thesis by (simp add: scan_line_def)
qed

lemma scan_line_healthMarker:
  "scan_line st healthMarker =
     st \<lparr> inSymptomsSection := False, inHealthContextSection := True,
          inDiagnosisSection := False, currentSession := currentSession st @ [healthMarker] \<rparr>"
proof -
  have "\<not> matchesSessionStart healthMarker" "\<not> includes_str healthMarker symptomsMarker"
    "includes_str healthMarker healthMarker"
    by (simp_all add: matchesSessionStart_def sessionStart_def symptomsMarker_def healthMarker_def)
  then show ?thesis by (simp add: scan_line_def)
qed

lemma diagnosisLine_diagnosisMarker: "diagnosisLine diagnosisMarker"
  by (simp add: diagnosisLine_def matchesSessionStart_def sessionStart_def symptomsMarker_def
      healthMarker_def diagnosisMarker_def)

lemma scan_line_separator:
  "scan_line st separator =
     st \<lparr> inSymptomsSection := False, inHealthContextSection := False,
          inDiagnosisSection := False \<rparr>"
proof -
  have "\<not> matchesSessionStart separator" "\<not> includes_str separator symptomsMarker"
    "\<not> includes_str separator healthMarker" "\<not> includes_str separator diagnosisMarker"
    "trim separator = separator"
    by (simp_all add: matchesSessionStart_def sessionStart_def symptomsMarker_def healthMarker_def
        diagnosisMarker_def separator_def trim_def is_ws_def)
  then show ?thesis by (simp add: scan_line_def)
qed

lemma scan_blockLines:
  assumes wf: "wellFormedSession e"
  shows "scan_lines st (blockLines e) =
     st \<lparr> userProvidedSections := flushed st, currentSession := blockLines e,
          inSymptomsSection := \<not> truthy (healthHistory e),
          inHealthContextSection := truthy (healthHistory e),
          inDiagnosisSection := False \<rparr>"
proof -
  have sy: "list_all plainLine (split_nl (symptoms e))"
    using wf by (simp add: wellFormedSession_def plainText_def)
  have hh: "truthy (healthHistory e) \<Longrightarrow> list_all plainLine (split_nl (the (healthHistory e)))"
    using wf by (simp add: wellFormedSession_def plainText_def)
  show ?thesis
    by (simp add: blockLines_def scan_lines_append scan_lines_Cons scan_lines_Nil
        scan_line_sessionLine scan_line_symptomsMarker scan_line_healthMarker scan_line_empty
        scan_lines_plain_kept sy hh)
qed

lemma scan_entryLines:
  assumes wf: "wellFormedSession e"
    and f: "\<not> inSymptomsSection st" "\<not> inHealthContextSection st"
  shows "scan_lines st (entryLines e) =
     st \<lparr> userProvidedSections := flushed st, currentSession := blockLines e,
          inSymptomsSection := False, inHealthContextSection := False,
          inDiagnosisSection := False \<rparr>"
proof -
  have sy: "list_all plainLine (split_nl (symptoms e))"
    using wf by (simp add: wellFormedSession_def plainText_def)
  have hh: "truthy (healthHistory e) \<Longrightarrow> list_all plainLine (split_nl (the (healthHistory e)))"
    using wf by (simp add: wellFormedSession_def plainText_def)
  have dg: "list_all plainLine (split_nl (diagnosis e))"
    using wf by (simp add: wellFormedSession_def plainText_def)
  show ?thesis
    using f
    by (simp add: entryLines_def blockLines_def scan_lines_append scan_lines_Cons scan_lines_Nil
        scan_line_sessionLine scan_line_symptomsMarker scan_line_healthMarker scan_line_empty
        scan_line_separator scan_line_diagnosis [OF diagnosisLine_diagnosisMarker]
        scan_lines_plain_kept scan_lines_plain_dropped sy hh dg)
qed

lemma nlFree_constants:
  "nlFree []" "nlFree symptomsMarker" "nlFree healthMarker" "nlFree diagnosisMarker"
  "nlFree separator" "nlFree labelLine"
  by (simp_all add: nlFree_def symptomsMarker_def healthMarker_def diagnosisMarker_def
      separator_def labelLine_def)

lemma nlFree_sessionLine: "nlFree ts \<Longrightarrow> nlFree (sessionLine ts)"
  by (simp add: nlFree_def sessionLine_def)

lemma nlFree_headerLines:
  "wellFormedHeader uid created \<Longrightarrow> list_all nlFree (headerLines uid created)"
  by (simp add: wellFormedHeader_def headerLines_def nlFree_constants)
     (simp add: nlFree_def titleLine_def createdLine_def)

lemma nlFree_blockLines: "wellFormedSession e \<Longrightarrow> list_all nlFree (blockLines e)"
  by (simp add: blockLines_def wellFormedSession_def nlFree_constants nlFree_sessionLine
      nlFree_split_nl)

lemma nlFree_entryLines: "wellFormedSession e \<Longrightarrow> list_all nlFree (entryLines e)"
  by (simp add: entryLines_def wellFormedSession_def nlFree_constants nlFree_sessionLine
      nlFree_split_nl)

lemma scan_headerLines:
  "wellFormedHeader uid created \<Longrightarrow> scan_lines scan_init (headerLines uid created) = scan_init"
  by (simp add: wellFormedHeader_def headerLines_def scan_lines_Cons scan_lines_Nil
      scan_line_plain scan_line_empty scan_line_separator plainLine_labelLine)
     (simp add: scan_init_def)

lemma flushed_scan_init: "flushed scan_init = []"
  by (simp add: flushed_def scan_init_def)

lemma headerOfLines_headerLines:
  "headerOfLines (headerLines uid created @ rest) =
     Some (titleLine uid @ [nl, nl] @ createdLine created)"
  by (simp add: headerOfLines_def headerLines_def titleLine_def createdLine_def headerTitle_def
      headerCreated_def)

lemma scan_entries:
  "list_all wellFormedSession es \<Longrightarrow>
   \<not> inSymptomsSection st \<Longrightarrow> \<not> inHealthContextSection st \<Longrightarrow> \<not> inDiagnosisSection st \<Longrightarrow>
   scan_finish (scan_lines st (concat (map entryLines es) @ [[]])) = flushed st @ map userBlock es"
proof (induction es arbitrary: st)
  case Nil
  then show ?case
    by (simp add: scan_lines_Cons scan_lines_Nil scan_line_empty scan_finish_def flushed_def)
next
  case (Cons e es)
  from Cons.prems have wf: "wellFormedSession e" and wfs: "list_all wellFormedSession es"
    by simp_all
  let ?st = "st \<lparr> userProvidedSections := flushed st, currentSession := blockLines e,
          inSymptomsSection := False, inHealthContextSection := False,
          inDiagnosisSection := False \<rparr>"
  have "scan_lines st (concat (map entryLines (e # es)) @ [[]]) =
        scan_lines ?st (concat (map entryLines es) @ [[]])"
    using scan_entryLines [OF wf Cons.prems(2,3)] by (simp add: scan_lines_append)
  moreover have "scan_finish (scan_lines ?st (concat (map entryLines es) @ [[]])) =
        flushed ?st @ map userBlock es"
    by (rule Cons.IH [OF wfs]) simp_all
  moreover have "flushed ?st = flushed st @ [userBlock e]"
    by (simp add: flushed_def blockLines_not_Nil join_blockLines)
  ultimately show ?case by simp
qed

lemma unlines_concat_entries:
  "concat (map entryText es) = unlines (concat (map entryLines es))"
  by (induction es) (simp_all add: unlines_Nil unlines_append entryText_unlines)

lemma split_nl_renderLog:
  assumes "wellFormedHeader uid created" and "list_all wellFormedSession es"
  shows "split_nl (renderLog uid created es) =
           headerLines uid created @ concat (map entryLines es) @ [[]]"
proof -
  have "list_all nlFree (concat (map entryLines es))"
    using assms(2) by (induction es) (simp_all add: nlFree_entryLines)
  then have nf: "list_all nlFree (headerLines uid created @ concat (map entryLines es))"
    using nlFree_headerLines [OF assms(1)] by simp
  have "renderLog uid created es = unlines (headerLines uid created @ concat (map entryLines es)) @ []"
    by (simp add: renderLog_def initialContent_unlines unlines_concat_entries unlines_append)
  then show ?thesis
    using split_nl_unlines [OF nf, of "[]"] by simp
qed

lemma filterSections_renderLog:
  assumes "wellFormedHeader uid created" and "list_all wellFormedSession es"
  shows "filterSections (renderLog uid created es) = map userBlock es"
proof -
  have "scan_lines scan_init (split_nl (renderLog uid created es)) =
        scan_lines scan_init (concat (map entryLines es) @ [[]])"
    by (simp add: split_nl_renderLog [OF assms] scan_lines_append scan_headerLines [OF assms(1)])
  moreover have "scan_finish (scan_lines scan_init (concat (map entryLines es) @ [[]])) =
        flushed scan_init @ map userBlock es"
    by (rule scan_entries [OF assms(2)]) (simp_all add: scan_init_def)
  ultimately show ?thesis
    by (simp add: filterSections_def flushed_scan_init)
qed

lemma extract_renderLog:
  assumes "wellFormedHeader uid created" and "list_all wellFormedSession es"
  shows "extractUserProvidedHistory (renderLog uid created es) = filteredView uid created es"
proof -
  have h: "headerMatch (renderLog uid created es) =
      Some (titleLine uid @ [nl, nl] @ createdLine created)"
    by (simp only: headerMatch_lines split_nl_renderLog [OF assms] headerOfLines_headerLines)
  show ?thesis
    by (simp add: extractUserProvidedHistory_def Let_def h filterSections_renderLog [OF assms]
        filteredView_def viewOf_def)
qed

lemma viewOf_unlines:
  "viewOf uid created bs =
     unlines (headerLines uid created) @
     (if bs = [] then [] else join sectionSeparator bs @ [nl, nl])"
  by (simp add: viewOf_def headerLines_def unlines_Cons unlines_Nil sectionLabel_def
      separator_def labelLine_def)

lemma userBlock_separator_unlines:
  "userBlock e @ sectionSeparator = unlines (blockLines e @ [[], separator, []])"
proof -
  have "userBlock e @ sectionSeparator = (userBlock e @ [nl]) @ unlines [[], separator, []]"
    by (simp add: sectionSeparator_def unlines_Cons unlines_Nil separator_def)
  then show ?thesis
    by (simp only: userBlock_unlines unlines_append)
qed

lemma userBlock_end_unlines: "userBlock e @ [nl, nl] = unlines (blockLines e @ [[]]) @ []"
proof -
  have "userBlock e @ [nl, nl] = (userBlock e @ [nl]) @ unlines [[]]"
    by (simp add: unlines_Cons unlines_Nil)
  then show ?thesis
    by (simp only: userBlock_unlines unlines_append append_Nil2)
qed

lemma scan_view_blocks:
  "es \<noteq> [] \<Longrightarrow> list_all wellFormedSession es \<Longrightarrow>
   scan_finish (scan_lines st
      (split_nl (join sectionSeparator (map userBlock es) @ [nl, nl])))
   = flushed st @ paddedBlocks (map userBlock es)"
proof (induction es arbitrary: st)
  case Nil
  then show ?case by simp
next
  case (Cons e es)
  from Cons.prems have wf: "wellFormedSession e" and wfs: "list_all wellFormedSession es"
    by simp_all
  show ?case
  proof (cases es)
    case Nil
    have nf: "list_all nlFree (blockLines e @ [[]])"
      using nlFree_blockLines [OF wf] by (simp add: nlFree_constants)
    have sp: "split_nl (userBlock e @ [nl, nl]) = blockLines e @ [[], []]"
      using split_nl_unlines [OF nf, of "[]"] by (simp add: userBlock_end_unlines)
    have "scan_lines st (blockLines e @ [[], []]) =
        st \<lparr> userProvidedSections := flushed st, currentSession := blockLines e @ [[], []],
             inSymptomsSection := \<not> truthy (healthHistory e),
             inHealthContextSection := truthy (healthHistory e),
             inDiagnosisSection := False \<rparr>"
      by (simp add: scan_lines_append scan_blockLines [OF wf] scan_lines_Cons scan_lines_Nil
          scan_line_empty)
    then show ?thesis
      by (simp add: Nil sp scan_finish_def paddedBlocks_def join_blockLines_pad2)
  next
    case (Cons e' es')
    let ?rest = "join sectionSeparator (map userBlock es) @ [nl, nl]"
    let ?st = "st \<lparr> userProvidedSections := flushed st, currentSession := blockLines e @ [[]],
          inSymptomsSection := False, inHealthContextSection := False,
          inDiagnosisSection := False \<rparr>"
    have nf: "list_all nlFree (blockLines e @ [[], separator, []])"
      using nlFree_blockLines [OF wf] by (simp add: nlFree_constants)
    have "join sectionSeparator (map userBlock (e # es)) @ [nl, nl] =
        unlines (blockLines e @ [[], separator, []]) @ ?rest"
      by (simp add: Cons userBlock_separator_unlines [symmetric])
    then have sp: "split_nl (join sectionSeparator (map userBlock (e # es)) @ [nl, nl]) =
        (blockLines e @ [[], separator, []]) @ split_nl ?rest"
      by (simp only: split_nl_unlines [OF nf])
    have sc: "scan_lines st (blockLines e @ [[], separator, []]) = ?st"
      by (simp add: scan_lines_append scan_blockLines [OF wf] scan_lines_Cons scan_lines_Nil
          scan_line_empty scan_line_separator)
    have "scan_finish (scan_lines ?st (split_nl ?rest)) =
        flushed ?st @ paddedBlocks (map userBlock es)"
      by (rule Cons.IH [OF _ wfs]) (simp add: Cons)
    moreover have "flushed ?st = flushed st @ [userBlock e @ [nl]]"
      by (simp add: flushed_def join_blockLines_pad1)
    moreover have "scan_lines st ((blockLines e @ [[], separator, []]) @ split_nl ?rest) =
        scan_lines ?st (split_nl ?rest)"
      by (simp only: scan_lines_append [of st "blockLines e @ [[], separator, []]"] sc)
    moreover have "paddedBlocks (map userBlock (e # es)) =
        [userBlock e @ [nl]] @ paddedBlocks (map userBlock es)"
      by (simp add: Cons paddedBlocks_def)
    ultimately show ?thesis
      by (simp only: sp append_assoc)
  qed
qed

lemma split_nl_viewOf:
  assumes "wellFormedHeader uid created"
  shows "split_nl (viewOf uid created bs) =
     headerLines uid created @
     split_nl (if bs = [] then [] else join sectionSeparator bs @ [nl, nl])"
  by (simp only: viewOf_unlines split_nl_unlines [OF nlFree_headerLines [OF assms]])

lemma paddedBlocks_Nil_iff: "paddedBlocks bs = [] \<longleftrightarrow> bs = []"
  by (simp add: paddedBlocks_def)

lemma extract_filteredView:
  assumes "wellFormedHeader uid created" and "list_all wellFormedSession es"
  shows "extractUserProvidedHistory (filteredView uid created es) =
           viewOf uid created (paddedBlocks (map userBlock es))"
proof -
  let ?v = "viewOf uid created (map userBlock es)"
  have h: "headerMatch ?v = Some (titleLine uid @ [nl, nl] @ createdLine created)"
    by (simp only: headerMatch_lines split_nl_viewOf [OF assms(1)] headerOfLines_headerLines)
  have f: "filterSections ?v = paddedBlocks (map userBlock es)"
  proof (cases "es = []")
    case True
    have "scan_lines scan_init (split_nl ?v) = scan_lines scan_init [[]]"
      using True
      by (simp add: split_nl_viewOf [OF assms(1)] scan_lines_append
          scan_headerLines [OF assms(1)])
    then show ?thesis
      using True
      by (simp add: filterSections_def scan_lines_Cons scan_lines_Nil scan_line_empty
          scan_finish_def scan_init_def paddedBlocks_def)
  next
    case False
    have "scan_finish (scan_lines scan_init
        (split_nl (join sectionSeparator (map userBlock es) @ [nl, nl])))
      = flushed scan_init @ paddedBlocks (map userBlock es)"
      by (rule scan_view_blocks [OF False assms(2)])
    then show ?thesis
      using False
      by (simp add: filterSections_def split_nl_viewOf [OF assms(1)] scan_lines_append
          scan_headerLines [OF assms(1)] flushed_scan_init)
  qed
  have "extractUserProvidedHistory ?v =
      titleLine uid @ [nl, nl] @ createdLine created @ sectionLabel @
      (if paddedBlocks (map userBlock es) = [] then []
       else join sectionSeparator (paddedBlocks (map userBlock es)) @ [nl, nl])"
    by (simp add: extractUserProvidedHistory_def Let_def h f)
  also have "\<dots> = viewOf uid created (paddedBlocks (map userBlock es))"
    by (simp add: viewOf_def)
  finally show ?thesis
    by (simp only: filteredView_def)
qed


section \<open>What the view keeps and what it drops\<close>


lemma headerOfLines_after_line:
  "pre \<noteq> [] \<Longrightarrow> d \<noteq> [] \<Longrightarrow> headerOfLines (pre @ d # x) = headerOfLines (pre @ d # y)"
proof -
  assume p: "pre \<noteq> []" and d: "d \<noteq> []"
  then obtain p0 ps where pre: "pre = p0 # ps" by (cases pre) auto
  show ?thesis
  proof (cases ps)
    case Nil
    with pre d show ?thesis by (simp add: headerOfLines_def split: list.splits)
  next
    case (Cons p1 ps')
    with pre show ?thesis by (cases ps') (simp_all add: headerOfLines_def)
  qed
qed

lemma diagnosisLine_not_Nil: "diagnosisLine d \<Longrightarrow> d \<noteq> []"
  by (auto simp: diagnosisLine_def diagnosisMarker_def)

lemma scan_lines_diagnosis_text:
  assumes "diagnosisLine d" and "list_all plainLine mid"
  shows "scan_lines st (pre @ d # mid @ post) = scan_lines (scan_line (scan_lines st pre) d) post"
proof -
  let ?st = "scan_line (scan_lines st pre) d"
  have "scan_lines ?st mid = ?st"
    by (rule scan_lines_plain_dropped [OF assms(2)]) (simp_all add: scan_line_diagnosis [OF assms(1)])
  then show ?thesis
    by (simp add: scan_lines_append scan_lines_Cons)
qed

lemma scenarioLog_view:
  "extractUserProvidedHistory scenarioLog =
     ''# Medical History - User u1'' @ [nl, nl] @
     ''**Created:** 2026-02-15T17:03:43.506Z'' @ [nl, nl] @ ''---'' @ [nl, nl] @
     ''## Session History'' @ [nl, nl] @
     ''### Session 2026-02-15T17:03:50.616Z'' @ [nl] @
     ''**Symptoms Reported:**'' @ [nl] @ ''cough'' @ [nl, nl, nl] @ [nl, nl]"
  by (simp add: scenarioLog_def scenarioSession_def renderLog_def entryText_def
      initialContent_def sessionEntry_def truthy_def nl_def
      extractUserProvidedHistory_def filterSections_def scan_lines_def scan_line_def
      scan_finish_def scan_init_def headerMatch_def sectionLabel_def sectionSeparator_def
      matchesSessionStart_def sessionStart_def symptomsMarker_def healthMarker_def
      diagnosisMarker_def separator_def trim_def is_ws_def headerTitle_def headerCreated_def
      not_nl_def)

text \<open>Claim C1 (as amended).  Take a line after the first line of the log on which the
  scan takes the diagnosis branch: it holds the diagnosis marker, does not start a session
  and holds neither the symptoms nor the health-context marker.  The lines between it and
  the next separator or marker line have no influence on the view: two logs that differ in
  these lines only have the same view, so no text of these lines is in it.  For the log
  with one session, symptoms \<^verbatim>\<open>cough\<close> and a diagnosis, the view is the header, the label,
  the session line and \<^verbatim>\<open>cough\<close> under the symptoms marker.\<close>

theorem diagnosis_text_never_in_view:
  assumes "split_nl t1 = pre @ d # mid1 @ post"
    and "split_nl t2 = pre @ d # mid2 @ post"
    and "pre \<noteq> []"
    and "diagnosisLine d"
    and "list_all plainLine mid1"
    and "list_all plainLine mid2"
  shows "extractUserProvidedHistory t1 = extractUserProvidedHistory t2
       \<and> extractUserProvidedHistory scenarioLog =
           ''# Medical History - User u1'' @ [nl, nl] @
           ''**Created:** 2026-02-15T17:03:43.506Z'' @ [nl, nl] @ ''---'' @ [nl, nl] @
           ''## Session History'' @ [nl, nl] @
           ''### Session 2026-02-15T17:03:50.616Z'' @ [nl] @
           ''**Symptoms Reported:**'' @ [nl] @ ''cough'' @ [nl, nl, nl] @ [nl, nl]"
proof -
  have h: "headerMatch t1 = headerMatch t2"
    using headerOfLines_after_line [OF assms(3) diagnosisLine_not_Nil [OF assms(4)]]
    by (simp add: headerMatch_lines assms(1,2))
  have f: "filterSections t1 = filterSections t2"
    by (simp add: filterSections_def assms(1,2)
        scan_lines_diagnosis_text [OF assms(4,5)] scan_lines_diagnosis_text [OF assms(4,6)])
  show ?thesis
    using scenarioLog_view by (simp add: extractUserProvidedHistory_def h f)
qed

theorem diagnosis_text_never_in_view_witness:
  "extractUserProvidedHistory scenarioLog = extractUserProvidedHistory otherDiagnosisLog"
proof -
  have 1: "split_nl scenarioLog =
      [''# Medical History - User u1'', [], ''**Created:** 2026-02-15T17:03:43.506Z'', [],
       ''---'', [], ''## Session History'', [], [], ''### Session 2026-02-15T17:03:50.616Z'',
       [], ''**Symptoms Reported:**'', ''cough'', [], [], []]
      @ ''**Diagnosis & Recommendations:**'' # [''Rest and drink fluids.''] @ [[], ''---'', [], []]"
    by (simp add: scenarioLog_def scenarioSession_def renderLog_def entryText_def
        initialContent_def sessionEntry_def truthy_def nl_def)
  have 2: "split_nl otherDiagnosisLog =
      [''# Medical History - User u1'', [], ''**Created:** 2026-02-15T17:03:43.506Z'', [],
       ''---'', [], ''## Session History'', [], [], ''### Session 2026-02-15T17:03:50.616Z'',
       [], ''**Symptoms Reported:**'', ''cough'', [], [], []]
      @ ''**Diagnosis & Recommendations:**'' # [''See a doctor.''] @ [[], ''---'', [], []]"
    by (simp add: otherDiagnosisLog_def scenarioSession_def renderLog_def entryText_def
        initialContent_def sessionEntry_def truthy_def nl_def)
  have 3: "[''# Medical History - User u1'', [], ''**Created:** 2026-02-15T17:03:43.506Z'', [],
       ''---'', [], ''## Session History'', [], [], ''### Session 2026-02-15T17:03:50.616Z'',
       [], ''**Symptoms Reported:**'', ''cough'', [], [], []] \<noteq> []"
    by simp
  have 4: "diagnosisLine ''**Diagnosis & Recommendations:**''"
    using diagnosisLine_diagnosisMarker by (simp add: diagnosisMarker_def)
  have 5: "list_all plainLine [''Rest and drink fluids.'']"
    by (simp add: plainLine_def matchesSessionStart_def sessionStart_def symptomsMarker_def
        healthMarker_def diagnosisMarker_def separator_def trim_def is_ws_def)
  have 6: "list_all plainLine [''See a doctor.'']"
    by (simp add: plainLine_def matchesSessionStart_def sessionStart_def symptomsMarker_def
        healthMarker_def diagnosisMarker_def separator_def trim_def is_ws_def)
  show ?thesis
    using diagnosis_text_never_in_view [OF 1 2 3 4 5 6] by simp
qed

text \<open>Claim C1 as stated fails for a line that holds the diagnosis marker after the
  symptoms marker: the test for the symptoms marker comes first, the scan is then inside
  the symptoms, and the line that follows is in the view.\<close>

theorem double_marker_counterexample:
  "split_nl doubleMarkerLog =
     [''### Session 2026-02-15T17:03:50.616Z'',
      ''**Symptoms Reported:** **Diagnosis & Recommendations:**'',
      ''Rest and drink fluids.'']
   \<and> includes_str ''**Symptoms Reported:** **Diagnosis & Recommendations:**''
         ''**Diagnosis & Recommendations:**''
   \<and> plainLine ''Rest and drink fluids.''
   \<and> extractUserProvidedHistory doubleMarkerLog =
       [nl, nl] @ ''---'' @ [nl, nl] @ ''## Session History'' @ [nl, nl] @
       ''### Session 2026-02-15T17:03:50.616Z'' @ [nl] @
       ''**Symptoms Reported:** **Diagnosis & Recommendations:**'' @ [nl] @
       ''Rest and drink fluids.'' @ [nl, nl]"
  by (simp add: doubleMarkerLog_def nl_def plainLine_def
      extractUserProvidedHistory_def filterSections_def scan_lines_def scan_line_def
      scan_finish_def scan_init_def headerMatch_def sectionLabel_def sectionSeparator_def
      matchesSessionStart_def sessionStart_def symptomsMarker_def healthMarker_def
      diagnosisMarker_def separator_def trim_def is_ws_def headerTitle_def headerCreated_def
      not_nl_def)

section \<open>The view of a log that the store wrote\<close>


lemma sublist_join: "x \<in> set xs \<Longrightarrow> sublist x (join sep xs)"
proof (induction sep xs rule: join.induct)
  case (1 sep)
  then show ?case by simp
next
  case (2 sep y)
  then show ?case by simp
next
  case (3 sep y z zs)
  show ?case
  proof (cases "x = y")
    case True
    then show ?thesis by simp
  next
    case False
    with 3 have "sublist x (join sep (z # zs))" by simp
    then have "sublist x ((y @ sep) @ join sep (z # zs))"
      by (rule sublist_order.order.trans) (rule sublist_append_leftI)
    then show ?thesis by simp
  qed
qed

lemma sublist_symptoms_userBlock: "sublist (symptoms e) (userBlock e)"
proof -
  have "userBlock e = (sessionLine (timestamp e) @ [nl] @ symptomsMarker @ [nl]) @ symptoms e @
      ([nl, nl] @ (if truthy (healthHistory e)
                   then healthMarker @ [nl] @ the (healthHistory e) @ [nl] else []) @ [nl])"
    by (simp add: userBlock_def sessionLine_def symptomsMarker_def healthMarker_def)
  then show ?thesis by (simp only: sublist_appendI)
qed

lemma sublist_health_userBlock:
  "truthy (healthHistory e) \<Longrightarrow> sublist (the (healthHistory e)) (userBlock e)"
proof -
  assume t: "truthy (healthHistory e)"
  have "userBlock e = (sessionLine (timestamp e) @ [nl] @ symptomsMarker @ [nl] @ symptoms e @
      [nl, nl] @ healthMarker @ [nl]) @ the (healthHistory e) @ [nl, nl]"
    using t by (simp add: userBlock_def sessionLine_def symptomsMarker_def healthMarker_def)
  then show ?thesis by (simp only: sublist_appendI)
qed

lemma sublist_block_view:
  assumes "e \<in> set es"
  shows "sublist (userBlock e) (filteredView uid created es)"
proof -
  from assms have ne: "map userBlock es \<noteq> []" by auto
  have "sublist (userBlock e) (join sectionSeparator (map userBlock es))"
    by (rule sublist_join) (use assms in simp)
  moreover have "filteredView uid created es =
      (titleLine uid @ [nl, nl] @ createdLine created @ sectionLabel) @
      join sectionSeparator (map userBlock es) @ [nl, nl]"
    using ne by (simp add: filteredView_def viewOf_def)
  moreover have "sublist (join sectionSeparator (map userBlock es))
      ((titleLine uid @ [nl, nl] @ createdLine created @ sectionLabel) @
       join sectionSeparator (map userBlock es) @ [nl, nl])"
    by (rule sublist_appendI)
  ultimately show ?thesis
    by (simp only: sublist_order.order.trans)
qed

lemma userBlock_cong:
  assumes "userFields e = userFields e'"
  shows "userBlock e = userBlock e'"
proof -
  have "fst (userFields e) = fst (userFields e')"
    and "fst (snd (userFields e)) = fst (snd (userFields e'))"
    and "snd (snd (userFields e)) = snd (snd (userFields e'))"
    by (simp_all only: assms)
  then have "timestamp e = timestamp e'" and "symptoms e = symptoms e'"
    and "healthHistory e = healthHistory e'"
    by (simp_all only: userFields_def fst_conv snd_conv)
  then show ?thesis
    unfolding userBlock_def by (simp only:)
qed

lemma map_userBlock_cong:
  "map userFields es' = map userFields es \<Longrightarrow> map userBlock es' = map userBlock es"
proof (induction es arbitrary: es')
  case Nil
  then show ?case by simp
next
  case (Cons e es)
  from Cons.prems obtain e' es'' where es': "es' = e' # es''"
    by (cases es') auto
  from Cons.prems es' have h: "userFields e' = userFields e"
    and t: "map userFields es'' = map userFields es"
    by simp_all
  show ?case
    by (simp only: es' list.map userBlock_cong [OF h] Cons.IH [OF t])
qed

text \<open>Claim C2.  For a log that the store wrote (the header and the sessions appended one
  by one) whose fields hold no marker line and no separator line, the view is the header,
  the label and for each session its session line and its symptoms and health context under
  their markers, in the order of the log.  The view is the same for every log with the same
  user fields, whatever the diagnoses; the symptoms and the health context of every
  session occur in it unchanged.\<close>

theorem well_formed_log_filter:
  assumes "wellFormedHeader uid created" and "list_all wellFormedSession es"
  shows "extractUserProvidedHistory (renderLog uid created es) = filteredView uid created es
       \<and> (\<forall>es'. list_all wellFormedSession es' \<and> map userFields es' = map userFields es \<longrightarrow>
             extractUserProvidedHistory (renderLog uid created es') =
             extractUserProvidedHistory (renderLog uid created es))
       \<and> (\<forall>e\<in>set es.
             sublist (symptoms e) (extractUserProvidedHistory (renderLog uid created es)) \<and>
             (truthy (healthHistory e) \<longrightarrow>
                sublist (the (healthHistory e))
                  (extractUserProvidedHistory (renderLog uid created es))))"
proof -
  have 1: "extractUserProvidedHistory (renderLog uid created es) = filteredView uid created es"
    by (rule extract_renderLog [OF assms])
  have 2: "extractUserProvidedHistory (renderLog uid created es') =
           extractUserProvidedHistory (renderLog uid created es)"
    if "list_all wellFormedSession es'" and "map userFields es' = map userFields es" for es'
  proof -
    have "extractUserProvidedHistory (renderLog uid created es') = filteredView uid created es'"
      by (rule extract_renderLog [OF assms(1) that(1)])
    also have "\<dots> = filteredView uid created es"
      by (simp only: filteredView_def map_userBlock_cong [OF that(2)])
    finally show ?thesis by (simp only: 1)
  qed
  have 3: "sublist (symptoms e) (extractUserProvidedHistory (renderLog uid created es))"
    if "e \<in> set es" for e
    unfolding 1
    using sublist_symptoms_userBlock [of e] sublist_block_view [OF that, of uid created]
    by (rule sublist_order.order.trans)
  have 4: "sublist (the (healthHistory e)) (extractUserProvidedHistory (renderLog uid created es))"
    if "e \<in> set es" and "truthy (healthHistory e)" for e
    unfolding 1
    using sublist_health_userBlock [OF that(2)] sublist_block_view [OF that(1), of uid created]
    by (rule sublist_order.order.trans)
  show ?thesis
    using 1 2 3 4 by blast
qed

lemma wellFormedHeader_scenario: "wellFormedHeader ''u1'' ''2026-02-15T17:03:43.506Z''"
  by (simp add: wellFormedHeader_def nlFree_def plainLine_def titleLine_def createdLine_def
      matchesSessionStart_def sessionStart_def symptomsMarker_def healthMarker_def
      diagnosisMarker_def separator_def trim_def is_ws_def)

lemma wellFormedSession_scenario: "wellFormedSession scenarioSession"
  by (simp add: wellFormedSession_def scenarioSession_def nlFree_def plainText_def truthy_def
      plainLine_def matchesSessionStart_def sessionStart_def symptomsMarker_def healthMarker_def
      diagnosisMarker_def separator_def trim_def is_ws_def)

lemma wellFormedSession_second: "wellFormedSession secondSession"
  by (simp add: wellFormedSession_def secondSession_def nlFree_def plainText_def truthy_def
      plainLine_def matchesSessionStart_def sessionStart_def symptomsMarker_def healthMarker_def
      diagnosisMarker_def separator_def trim_def is_ws_def)

theorem well_formed_log_filter_witness:
  "extractUserProvidedHistory twoSessionLog =
     ''# Medical History - User u1'' @ [nl, nl] @
     ''**Created:** 2026-02-15T17:03:43.506Z'' @ [nl, nl] @ ''---'' @ [nl, nl] @
     ''## Session History'' @ [nl, nl] @
     ''### Session 2026-02-15T17:03:50.616Z'' @ [nl] @
     ''**Symptoms Reported:**'' @ [nl] @ ''cough'' @ [nl, nl, nl] @
     [nl, nl] @ ''---'' @ [nl, nl] @
     ''### Session 2026-02-16T08:00:00.000Z'' @ [nl] @
     ''**Symptoms Reported:**'' @ [nl] @ ''headache'' @ [nl, nl] @
     ''**Additional Health Context:**'' @ [nl] @ ''asthma'' @ [nl, nl] @ [nl, nl]"
proof -
  have wf: "list_all wellFormedSession [scenarioSession, secondSession]"
    by (simp add: wellFormedSession_scenario wellFormedSession_second)
  show ?thesis
    using well_formed_log_filter [OF wellFormedHeader_scenario wf]
    by (simp add: twoSessionLog_def filteredView_def viewOf_def userBlock_def scenarioSession_def
        secondSession_def truthy_def titleLine_def createdLine_def sectionLabel_def
        sectionSeparator_def)
qed

lemma length_join_padded:
  "bs \<noteq> [] \<Longrightarrow> length (join sep (paddedBlocks bs)) = length (join sep bs) + length bs + 1"
proof (induction bs)
  case Nil
  then show ?case by simp
next
  case (Cons b bs)
  show ?case
  proof (cases bs)
    case Nil
    then show ?thesis by (simp add: paddedBlocks_def)
  next
    case (Cons b' bs')
    then have ne: "bs \<noteq> []" by simp
    have p: "paddedBlocks (b # bs) = [b @ [nl]] @ paddedBlocks bs"
      using ne by (simp add: paddedBlocks_def)
    have pn: "paddedBlocks bs \<noteq> []"
      using ne by (simp add: paddedBlocks_Nil_iff)
    have "join sep (paddedBlocks (b # bs)) = (b @ [nl]) @ sep @ join sep (paddedBlocks bs)"
      using pn by (cases "paddedBlocks bs") (simp_all add: p)
    moreover have "join sep (b # bs) = b @ sep @ join sep bs"
      by (simp add: Cons)
    ultimately show ?thesis
      using Cons.IH [OF ne] by simp
  qed
qed

lemma viewOf_padded_iff: "viewOf uid created (paddedBlocks bs) = viewOf uid created bs \<longleftrightarrow> bs = []"
proof
  assume eq: "viewOf uid created (paddedBlocks bs) = viewOf uid created bs"
  show "bs = []"
  proof (rule ccontr)
    assume ne: "bs \<noteq> []"
    then have "join sectionSeparator (paddedBlocks bs) = join sectionSeparator bs"
      using eq by (simp add: viewOf_def paddedBlocks_Nil_iff)
    then show False
      using length_join_padded [OF ne, of sectionSeparator] by simp
  qed
next
  assume "bs = []"
  then show "viewOf uid created (paddedBlocks bs) = viewOf uid created bs"
    by (simp add: paddedBlocks_def)
qed

text \<open>Claim C4 (as amended).  For a log that the store wrote, filtering the view again
  gives the same header and the same blocks with line feeds added at their ends: one for
  every block but the last, two for the last.  The second pass returns the view itself
  exactly when the log has no session.\<close>

theorem second_pass_pads_blocks:
  assumes "wellFormedHeader uid created" and "list_all wellFormedSession es"
  shows "extractUserProvidedHistory (renderLog uid created es) =
           viewOf uid created (map userBlock es)
       \<and> extractUserProvidedHistory (extractUserProvidedHistory (renderLog uid created es)) =
           viewOf uid created (paddedBlocks (map userBlock es))
       \<and> (extractUserProvidedHistory (extractUserProvidedHistory (renderLog uid created es)) =
            extractUserProvidedHistory (renderLog uid created es) \<longleftrightarrow> es = [])"
proof -
  have 1: "extractUserProvidedHistory (renderLog uid created es) =
           viewOf uid created (map userBlock es)"
    using extract_renderLog [OF assms] by (simp only: filteredView_def)
  have 2: "extractUserProvidedHistory (viewOf uid created (map userBlock es)) =
           viewOf uid created (paddedBlocks (map userBlock es))"
    using extract_filteredView [OF assms] by (simp only: filteredView_def)
  show ?thesis
    using viewOf_padded_iff [of uid created "map userBlock es"]
    by (simp only: 1 2) simp
qed

theorem second_pass_pads_blocks_witness:
  "extractUserProvidedHistory (extractUserProvidedHistory scenarioLog) =
     ''# Medical History - User u1'' @ [nl, nl] @
     ''**Created:** 2026-02-15T17:03:43.506Z'' @ [nl, nl] @ ''---'' @ [nl, nl] @
     ''## Session History'' @ [nl, nl] @
     ''### Session 2026-02-15T17:03:50.616Z'' @ [nl] @
     ''**Symptoms Reported:**'' @ [nl] @ ''cough'' @ [nl, nl, nl] @ [nl, nl] @ [nl, nl]"
proof -
  have wf: "list_all wellFormedSession [scenarioSession]"
    by (simp add: wellFormedSession_scenario)
  have "extractUserProvidedHistory (extractUserProvidedHistory scenarioLog) =
      viewOf ''u1'' ''2026-02-15T17:03:43.506Z'' (paddedBlocks (map userBlock [scenarioSession]))"
    using second_pass_pads_blocks [OF wellFormedHeader_scenario wf, THEN conjunct2, THEN conjunct1]
    by (simp only: scenarioLog_def)
  also have "\<dots> =
     ''# Medical History - User u1'' @ [nl, nl] @
     ''**Created:** 2026-02-15T17:03:43.506Z'' @ [nl, nl] @ ''---'' @ [nl, nl] @
     ''## Session History'' @ [nl, nl] @
     ''### Session 2026-02-15T17:03:50.616Z'' @ [nl] @
     ''**Symptoms Reported:**'' @ [nl] @ ''cough'' @ [nl, nl, nl] @ [nl, nl] @ [nl, nl]"
    by (simp add: viewOf_def paddedBlocks_def userBlock_def scenarioSession_def
        truthy_def titleLine_def createdLine_def sectionLabel_def sectionSeparator_def)
  finally show ?thesis .
qed

text \<open>Claim C4 as stated fails on the log with one session: the empty lines that end the
  view are scanned inside the symptoms and are appended to the block.\<close>

theorem refilter_counterexample:
  "extractUserProvidedHistory (extractUserProvidedHistory scenarioLog) \<noteq>
   extractUserProvidedHistory scenarioLog"
  by (simp add: scenarioLog_def scenarioSession_def renderLog_def entryText_def
      initialContent_def sessionEntry_def truthy_def nl_def
      extractUserProvidedHistory_def filterSections_def scan_lines_def scan_line_def
      scan_finish_def scan_init_def headerMatch_def sectionLabel_def sectionSeparator_def
      matchesSessionStart_def sessionStart_def symptomsMarker_def healthMarker_def
      diagnosisMarker_def separator_def trim_def is_ws_def headerTitle_def headerCreated_def
      not_nl_def)

end
